theory Spec2Isabelle
  imports Main
begin

section \<open>JavaScript strings and the regular expressions of routes.ts\<close>

text \<open>
  A JavaScript string is a sequence of code units. The model uses \<^typ>\<open>string\<close>, so it
  covers the strings whose code units lie in 0..255 (Latin-1); on that range the character
  classes and \<open>toLowerCase\<close> below are the ECMAScript ones: \<open>\d\<close> is 0-9, \<open>\w\<close> is
  A-Z, a-z, 0-9 and underscore, \<open>\s\<close> is tab, line feed, vertical tab, form feed, carriage
  return, space and the no-break space, and \<open>toLowerCase\<close> moves A-Z and the accented
  capitals 0xC0-0xDE (without the multiplication sign 0xD7) up by 32.
\<close>

definition isDigit :: "char \<Rightarrow> bool" where
  "isDigit c = (let n = (of_char c :: nat) in 48 \<le> n \<and> n \<le> 57)"

definition isWordChar :: "char \<Rightarrow> bool" where
  "isWordChar c = (let n = (of_char c :: nat) in
     (48 \<le> n \<and> n \<le> 57) \<or> (65 \<le> n \<and> n \<le> 90) \<or> n = 95 \<or> (97 \<le> n \<and> n \<le> 122))"

definition isSpace :: "char \<Rightarrow> bool" where
  "isSpace c = (let n = (of_char c :: nat) in (9 \<le> n \<and> n \<le> 13) \<or> n = 32 \<or> n = 160)"

definition lowerChar :: "char \<Rightarrow> char" where
  "lowerChar c = (let n = (of_char c :: nat) in
     if (65 \<le> n \<and> n \<le> 90) \<or> (192 \<le> n \<and> n \<le> 222 \<and> n \<noteq> 215)
     then char_of (n + 32) else c)"

definition toLowerCase :: "string \<Rightarrow> string" where
  "toLowerCase s = map lowerChar s"

definition trim :: "string \<Rightarrow> string" where
  "trim s = rev (dropWhile isSpace (rev (dropWhile isSpace s)))"

definition startsWith :: "string \<Rightarrow> string \<Rightarrow> bool" where
  "startsWith s p = (take (length p) s = p)"

text \<open>\<open>s.includes(k)\<close>: \<open>k\<close> occurs in \<open>s\<close> at some position.\<close>

fun str_includes :: "string \<Rightarrow> string \<Rightarrow> bool" where
  "str_includes [] k = (k = [])"
| "str_includes (c # cs) k = (startsWith (c # cs) k \<or> str_includes cs k)"

text \<open>
  JavaScript truthiness of a request field that is absent (\<open>None\<close>) or a string: only a
  non-empty string is truthy. \<open>orNull\<close> is \<open>x || null\<close>, \<open>textOf\<close> reads a field that
  has already been tested.
\<close>

definition truthy :: "string option \<Rightarrow> bool" where
  "truthy x = (case x of None \<Rightarrow> False | Some v \<Rightarrow> v \<noteq> [])"

definition orNull :: "string option \<Rightarrow> string option" where
  "orNull x = (if truthy x then x else None)"

definition textOf :: "string option \<Rightarrow> string" where
  "textOf x = (case x of None \<Rightarrow> [] | Some v \<Rightarrow> v)"

subsection \<open>A matcher for the phone-number patterns\<close>

text \<open>
  The patterns of \<open>containsPhoneNumber\<close> are sequences of two kinds of item: the word
  boundary \<open>\b\<close>, and a character class repeated between a lower and an (optional) upper
  bound. \<open>RegExp.test\<close> asks whether some position and some choice of repetition counts
  match, so the matcher tries all of them. \<open>matchHere\<close> carries the code unit before the
  current position, which \<open>\b\<close> needs.
\<close>

datatype atom = WordBoundary | Rep "char \<Rightarrow> bool" nat "nat option"

definition atBoundary :: "char option \<Rightarrow> string \<Rightarrow> bool" where
  "atBoundary prev s =
     ((case prev of None \<Rightarrow> False | Some p \<Rightarrow> isWordChar p)
      \<noteq> (case s of [] \<Rightarrow> False | x # _ \<Rightarrow> isWordChar x))"

definition belowMax :: "nat option \<Rightarrow> bool" where
  "belowMax hi = (case hi of None \<Rightarrow> True | Some h \<Rightarrow> 0 < h)"

definition decMax :: "nat option \<Rightarrow> nat option" where
  "decMax hi = (case hi of None \<Rightarrow> None | Some h \<Rightarrow> Some (h - 1))"

fun matchHere :: "atom list \<Rightarrow> char option \<Rightarrow> string \<Rightarrow> bool" where
  "matchHere [] prev s = True"
| "matchHere (WordBoundary # as) prev s = (atBoundary prev s \<and> matchHere as prev s)"
| "matchHere (Rep c lo hi # as) prev [] = (lo = 0 \<and> matchHere as prev [])"
| "matchHere (Rep c lo hi # as) prev (x # xs) =
     ((lo = 0 \<and> matchHere as prev (x # xs))
      \<or> (c x \<and> belowMax hi \<and> matchHere (Rep c (lo - 1) (decMax hi) # as) (Some x) xs))"

fun searchFrom :: "atom list \<Rightarrow> char option \<Rightarrow> string \<Rightarrow> bool" where
  "searchFrom p prev [] = matchHere p prev []"
| "searchFrom p prev (x # xs) = (matchHere p prev (x # xs) \<or> searchFrom p (Some x) xs)"

definition test :: "atom list \<Rightarrow> string \<Rightarrow> bool" where
  "test p s = searchFrom p None s"

definition sepSpaceDashDot :: "char \<Rightarrow> bool" where
  "sepSpaceDashDot c = (isSpace c \<or> c = CHR ''-'' \<or> c = CHR ''.'')"

definition sepSpaceDash :: "char \<Rightarrow> bool" where
  "sepSpaceDash c = (isSpace c \<or> c = CHR ''-'')"

definition isPlus :: "char \<Rightarrow> bool" where
  "isPlus c = (c = CHR ''+'')"

definition phonePatterns :: "atom list list" where
  "phonePatterns =
    [ [WordBoundary, Rep isDigit 10 (Some 13), WordBoundary],
      [WordBoundary, Rep isDigit 3 (Some 3), Rep sepSpaceDashDot 1 (Some 1),
       Rep isDigit 3 (Some 3), Rep sepSpaceDashDot 1 (Some 1), Rep isDigit 4 (Some 4),
       WordBoundary],
      [Rep isPlus 1 (Some 1), Rep isDigit 1 (Some 3), Rep sepSpaceDash 0 (Some 1),
       Rep isDigit 6 (Some 12), WordBoundary],
      [WordBoundary, Rep isDigit 4 (Some 4), Rep sepSpaceDash 1 (Some 1),
       Rep isDigit 3 (Some 3), Rep sepSpaceDash 1 (Some 1), Rep isDigit 3 (Some 3),
       WordBoundary],
      [WordBoundary, Rep isDigit 5 (Some 5), Rep sepSpaceDash 1 (Some 1),
       Rep isDigit 5 (Some 5), WordBoundary] ]"

text \<open>\<open>text.replace(/[\s\-\(\)\.\+]/g, "")\<close>\<close>

definition stripped :: "char \<Rightarrow> bool" where
  "stripped c = (isSpace c \<or> c = CHR ''-'' \<or> c = CHR ''('' \<or> c = CHR '')''
                 \<or> c = CHR ''.'' \<or> c = CHR ''+'')"

definition cleaned :: "string \<Rightarrow> string" where
  "cleaned txt = filter (\<lambda>c. \<not> stripped c) txt"

definition containsPhoneNumber :: "string \<Rightarrow> bool" where
  "containsPhoneNumber txt =
     ((\<exists>p \<in> set phonePatterns. test p txt) \<or> test [Rep isDigit 10 None] (cleaned txt))"

subsection \<open>Mention tokens\<close>

text \<open>
  \<open>content.match(/@(\w+(?:\s\w+)*)/g).map(m => m.slice(1))\<close>. A match starts at an \<open>@\<close>
  that is followed by a word character; it takes the whole run of word characters, and
  goes on over one space character whenever a word character follows it. Nothing comes
  after the starred group in the pattern, so the greedy match never backtracks.
  \<open>mentionBody\<close> is called on the text after the \<open>@\<close> and returns the token and the rest
  of the text, where the search for the next match resumes.
\<close>

fun mentionBody :: "string \<Rightarrow> string \<times> string" where
  "mentionBody [] = ([], [])"
| "mentionBody (c # cs) =
     (if isWordChar c \<or> (isSpace c \<and> (case cs of [] \<Rightarrow> False | d # _ \<Rightarrow> isWordChar d))
      then (case mentionBody cs of (tok, rest) \<Rightarrow> (c # tok, rest))
      else ([], c # cs))"

function mentionTokens :: "string \<Rightarrow> string list" where
  "mentionTokens [] = []"
| "mentionTokens (c # cs) =
     (if c = CHR ''@'' \<and> (case cs of [] \<Rightarrow> False | d # _ \<Rightarrow> isWordChar d)
      then fst (mentionBody cs) # mentionTokens (snd (mentionBody cs))
      else mentionTokens cs)"
  by pat_completeness auto
termination
proof (relation "measure length")
  have rest: "length (snd (mentionBody s)) \<le> length s" for s
    by (induction s) (auto split: prod.splits)
  show "wf (measure length)"
    by simp
  show "(snd (mentionBody cs), c # cs) \<in> measure length" for c cs
    using rest [of cs] by simp
  show "(cs, c # cs) \<in> measure length" for c :: char and cs
    by simp
qed

section \<open>The tables of shared/schema.ts\<close>

text \<open>
  One record per table, with the columns of the schema; a nullable column is an option.
  Identifiers are the \<open>varchar\<close> keys the database draws with \<open>gen_random_uuid()\<close>,
  timestamps are milliseconds since the epoch. Field names carry the table as a prefix
  (\<open>m_\<close> members, \<open>msg_\<close> messages, \<open>r_\<close> reactions, \<open>k_\<close> blocked keywords,
  \<open>n_\<close> notifications).
\<close>

type_synonym ident = string

record member =
  m_id :: ident
  m_name :: string
  m_phone :: string
  m_role :: string
  m_isActive :: bool
  m_restrictedUntil :: "int option"
  m_profilePicture :: "string option"
  m_projectsCompleted :: int
  m_totalProjectValue :: string
  m_firstLoginAt :: "int option"

record message =
  msg_id :: ident
  msg_senderId :: ident
  msg_content :: "string option"
  msg_type :: string
  msg_fileUrl :: "string option"
  msg_fileName :: "string option"
  msg_isPinned :: bool
  msg_isDeleted :: bool
  msg_replyToId :: "ident option"
  msg_mentions :: "string list option"
  msg_createdAt :: int

record reaction =
  r_id :: ident
  r_messageId :: ident
  r_memberId :: ident
  r_emoji :: string

record chat_settings =
  chatDisabled :: bool
  disappearAfterHours :: "int option"
  memberFileSendDisabled :: bool
  phoneNumberFilterEnabled :: bool

record blocked_keyword =
  k_id :: ident
  k_keyword :: string
  k_createdAt :: int

record notification =
  n_id :: ident
  n_recipientId :: ident
  n_senderId :: ident
  n_messageId :: ident
  n_type :: string
  n_isRead :: bool
  n_createdAt :: int

text \<open>
  The database: the rows of each table in insertion order. \<open>chatSettings\<close> is the row
  with id \<open>global\<close>, absent until the first access. \<open>draws\<close> counts the identifiers the
  database has generated so far.
\<close>

record store =
  members :: "member list"
  messages :: "message list"
  reactions :: "reaction list"
  chatSettings :: "chat_settings option"
  blockedKeywords :: "blocked_keyword list"
  notifications :: "notification list"
  draws :: nat

text \<open>
  What a request cannot control: the clock (read once per request, for the server's
  \<open>Date.now()\<close> and the database's \<open>now()\<close> alike), and the identifier generator of the
  database (\<open>gen_random_uuid n\<close> is its \<open>n\<close>-th draw). Every statement below holds for all
  of them.
\<close>

record env =
  now :: int
  gen_random_uuid :: "nat \<Rightarrow> ident"

text \<open>The columns a caller supplies on insert (\<open>InsertMessage\<close>, \<open>InsertReaction\<close>,
  \<open>InsertNotification\<close>).\<close>

record insert_message =
  im_senderId :: ident
  im_content :: "string option"
  im_type :: string
  im_fileUrl :: "string option"
  im_fileName :: "string option"
  im_replyToId :: "ident option"
  im_mentions :: "string list option"

record insert_reaction =
  ir_messageId :: ident
  ir_memberId :: ident
  ir_emoji :: string

record insert_notification =
  in_recipientId :: ident
  in_senderId :: ident
  in_messageId :: ident
  in_type :: string

section \<open>storage.ts\<close>

definition getMember :: "store \<Rightarrow> ident \<Rightarrow> member option" where
  "getMember s i = find (\<lambda>m. m_id m = i) (members s)"

definition getAllMembers :: "store \<Rightarrow> member list" where
  "getAllMembers s = members s"

text \<open>\<open>updateMember(id, data)\<close>: \<open>data\<close> is the change to the columns, as a function on
  the row; the first updated row is returned.\<close>

definition updateMember :: "ident \<Rightarrow> (member \<Rightarrow> member) \<Rightarrow> store \<Rightarrow> member option \<times> store" where
  "updateMember i upd s =
     (map_option upd (getMember s i),
      s\<lparr>members := map (\<lambda>m. if m_id m = i then upd m else m) (members s)\<rparr>)"

definition deleteMember :: "ident \<Rightarrow> store \<Rightarrow> store" where
  "deleteMember i s = s\<lparr>members := filter (\<lambda>m. m_id m \<noteq> i) (members s)\<rparr>"

text \<open>\<open>getMessages\<close> orders by \<open>createdAt\<close>; rows with equal timestamps keep their
  insertion order here.\<close>

definition getMessages :: "store \<Rightarrow> message list" where
  "getMessages s = sort_key msg_createdAt (messages s)"

definition getMessage :: "store \<Rightarrow> ident \<Rightarrow> message option" where
  "getMessage s i = find (\<lambda>m. msg_id m = i) (messages s)"

definition createMessage :: "env \<Rightarrow> insert_message \<Rightarrow> store \<Rightarrow> message \<times> store" where
  "createMessage e d s =
     (let m = \<lparr> msg_id = gen_random_uuid e (draws s), msg_senderId = im_senderId d,
                 msg_content = im_content d, msg_type = im_type d, msg_fileUrl = im_fileUrl d,
                 msg_fileName = im_fileName d, msg_isPinned = False, msg_isDeleted = False,
                 msg_replyToId = im_replyToId d, msg_mentions = im_mentions d,
                 msg_createdAt = now e \<rparr>
      in (m, s\<lparr>messages := messages s @ [m], draws := Suc (draws s)\<rparr>))"

definition deleteMessage :: "ident \<Rightarrow> store \<Rightarrow> store" where
  "deleteMessage i s =
     s\<lparr>messages := map (\<lambda>m. if msg_id m = i then m\<lparr>msg_isDeleted := True, msg_isPinned := False\<rparr>
                              else m) (messages s)\<rparr>"

definition pinMessage :: "ident \<Rightarrow> store \<Rightarrow> store" where
  "pinMessage i s =
     (case getMessage s i of
        None \<Rightarrow> s
      | Some msg \<Rightarrow>
          s\<lparr>messages := map (\<lambda>m. if msg_id m = i then m\<lparr>msg_isPinned := \<not> msg_isPinned msg\<rparr>
                                   else m) (messages s)\<rparr>)"

text \<open>
  \<open>toggleReaction\<close> awaits three statements in turn, the select, the delete and the
  insert, with no transaction around them, and the reactions table has no unique index on
  (message, member): the handlers of other requests run between the statements. So each
  statement is a step of its own. A call is at its select, at its delete (holding
  \<open>existing[0]\<close>, the row it read), at its insert, or has returned.
\<close>

definition selectReactions :: "insert_reaction \<Rightarrow> store \<Rightarrow> reaction list" where
  "selectReactions d s =
     filter (\<lambda>r. r_messageId r = ir_messageId d \<and> r_memberId r = ir_memberId d) (reactions s)"

definition deleteReaction :: "ident \<Rightarrow> store \<Rightarrow> store" where
  "deleteReaction i s = s\<lparr>reactions := filter (\<lambda>r. r_id r \<noteq> i) (reactions s)\<rparr>"

definition insertReaction :: "env \<Rightarrow> insert_reaction \<Rightarrow> store \<Rightarrow> store" where
  "insertReaction e d s =
     s\<lparr>reactions := reactions s @ [\<lparr> r_id = gen_random_uuid e (draws s),
                        r_messageId = ir_messageId d, r_memberId = ir_memberId d,
                        r_emoji = ir_emoji d \<rparr>],
       draws := Suc (draws s)\<rparr>"

datatype toggle_call =
    AtSelect insert_reaction
  | AtDelete insert_reaction reaction
  | AtInsert insert_reaction
  | Returned

definition toggleStep :: "env \<Rightarrow> toggle_call \<Rightarrow> store \<Rightarrow> toggle_call \<times> store" where
  "toggleStep e c s =
     (case c of
        AtSelect d \<Rightarrow>
          (case selectReactions d s of
             [] \<Rightarrow> (AtInsert d, s)
           | x # _ \<Rightarrow> (AtDelete d x, s))
      | AtDelete d x \<Rightarrow>
          (if r_emoji x = ir_emoji d then Returned else AtInsert d, deleteReaction (r_id x) s)
      | AtInsert d \<Rightarrow> (Returned, insertReaction e d s)
      | Returned \<Rightarrow> (Returned, s))"

text \<open>A call that no other handler interrupts: its (at most three) steps in a row.\<close>

definition toggleReaction :: "env \<Rightarrow> insert_reaction \<Rightarrow> store \<Rightarrow> store" where
  "toggleReaction e d s =
     (case toggleStep e (AtSelect d) s of
        (c1, s1) \<Rightarrow>
          (case toggleStep e c1 s1 of
             (c2, s2) \<Rightarrow> snd (toggleStep e c2 s2)))"

text \<open>Calls in flight at the same time. The schedule lists the calls by their index, in
  the order in which their next statements run.\<close>

fun runToggles ::
  "env \<Rightarrow> nat list \<Rightarrow> toggle_call list \<Rightarrow> store \<Rightarrow> toggle_call list \<times> store" where
  "runToggles e [] calls s = (calls, s)"
| "runToggles e (i # schedule) calls s =
     (if i < length calls
      then (case toggleStep e (calls ! i) s of
              (c, s') \<Rightarrow> runToggles e schedule (calls[i := c]) s')
      else runToggles e schedule calls s)"

definition getChatSettings :: "store \<Rightarrow> chat_settings \<times> store" where
  "getChatSettings s =
     (case chatSettings s of
        Some cs \<Rightarrow> (cs, s)
      | None \<Rightarrow>
          (let created = \<lparr> chatDisabled = False, disappearAfterHours = None,
                           memberFileSendDisabled = False, phoneNumberFilterEnabled = False \<rparr>
           in (created, s\<lparr>chatSettings := Some created\<rparr>)))"

definition getBlockedKeywords :: "store \<Rightarrow> blocked_keyword list" where
  "getBlockedKeywords s = sort_key k_createdAt (blockedKeywords s)"

text \<open>The \<open>keyword\<close> column is unique: an insert or update that would repeat a keyword
  fails in the database, and the route answers 400 without a change.\<close>

definition addBlockedKeyword :: "env \<Rightarrow> string \<Rightarrow> store \<Rightarrow> (blocked_keyword \<times> store) option" where
  "addBlockedKeyword e keyword s =
     (let k = \<lparr> k_id = gen_random_uuid e (draws s), k_keyword = trim (toLowerCase keyword),
                 k_createdAt = now e \<rparr>
      in if k_keyword k \<in> k_keyword ` set (blockedKeywords s) then None
         else Some (k, s\<lparr>blockedKeywords := blockedKeywords s @ [k], draws := Suc (draws s)\<rparr>))"

definition updateBlockedKeyword ::
  "ident \<Rightarrow> string \<Rightarrow> store \<Rightarrow> (blocked_keyword option \<times> store) option" where
  "updateBlockedKeyword i keyword s =
     (let kw = trim (toLowerCase keyword)
      in if (\<exists>k \<in> set (blockedKeywords s). k_id k = i)
            \<and> (\<exists>k \<in> set (blockedKeywords s). k_id k \<noteq> i \<and> k_keyword k = kw) then None
         else Some (map_option (\<lambda>k. k\<lparr>k_keyword := kw\<rparr>)
                      (find (\<lambda>k. k_id k = i) (blockedKeywords s)),
                    s\<lparr>blockedKeywords :=
                        map (\<lambda>k. if k_id k = i then k\<lparr>k_keyword := kw\<rparr> else k)
                          (blockedKeywords s)\<rparr>))"

definition removeBlockedKeyword :: "ident \<Rightarrow> store \<Rightarrow> store" where
  "removeBlockedKeyword i s = s\<lparr>blockedKeywords := filter (\<lambda>k. k_id k \<noteq> i) (blockedKeywords s)\<rparr>"

definition createNotification :: "env \<Rightarrow> insert_notification \<Rightarrow> store \<Rightarrow> notification \<times> store" where
  "createNotification e d s =
     (let n = \<lparr> n_id = gen_random_uuid e (draws s), n_recipientId = in_recipientId d,
                 n_senderId = in_senderId d, n_messageId = in_messageId d, n_type = in_type d,
                 n_isRead = False, n_createdAt = now e \<rparr>
      in (n, s\<lparr>notifications := notifications s @ [n], draws := Suc (draws s)\<rparr>))"

section \<open>routes.ts\<close>

text \<open>
  A route handler takes the session's member id, the request and the store, and returns
  the HTTP response, the store afterwards and the events it broadcast, in order. An error
  response is \<open>Fail status message\<close>.
\<close>

datatype response =
    Fail nat string
  | MessagesJson "message list"
  | MessageJson message
  | MemberJson "member option"
  | KeywordJson blocked_keyword
  | SuccessJson
  | BulkDeleteJson nat nat

datatype event =
    NewMessage message
  | NotificationEv ident notification
  | MessagePinned ident
  | MessageDeleted "ident option"
  | MemberUpdated "member option"
  | OnlineCount nat

definition PRIMARY_ADMIN_PHONE :: string where
  "PRIMARY_ADMIN_PHONE = ''7030809030''"

definition isAdminRole :: "string \<Rightarrow> bool" where
  "isAdminRole role = (role = ''admin'' \<or> role = ''sub-admin'')"

text \<open>The middleware \<open>requireAdmin\<close>: \<open>None\<close> is \<open>next()\<close>. (\<open>requireAuth\<close> is its first
  line alone, and is written out in the routes that use it.)\<close>

definition requireAdmin :: "store \<Rightarrow> ident option \<Rightarrow> response option" where
  "requireAdmin s session =
     (if \<not> truthy session then Some (Fail 401 ''Not authenticated'')
      else case getMember s (textOf session) of
             None \<Rightarrow> Some (Fail 403 ''Admin only'')
           | Some member \<Rightarrow>
               if \<not> isAdminRole (m_role member) then Some (Fail 403 ''Admin only'') else None)"

text \<open>\<open>sender.restrictedUntil && new Date(sender.restrictedUntil) > new Date()\<close>\<close>

definition isRestricted :: "env \<Rightarrow> member \<Rightarrow> bool" where
  "isRestricted e sender = (case m_restrictedUntil sender of None \<Rightarrow> False | Some t \<Rightarrow> t > now e)"

subsection \<open>GET /api/messages\<close>

definition listMessages :: "env \<Rightarrow> ident option \<Rightarrow> store \<Rightarrow> response \<times> store" where
  "listMessages e session s =
     (if \<not> truthy session then (Fail 401 ''Not authenticated'', s)
      else
        let member = getMember s (textOf session);
            msgs0 = filter (\<lambda>m. \<not> msg_isDeleted m) (getMessages s);
            (settings, s1) = getChatSettings s;
            msgs = (case disappearAfterHours settings of
                      None \<Rightarrow> msgs0
                    | Some h \<Rightarrow>
                        if h \<noteq> 0
                        then filter (\<lambda>m. msg_isPinned m \<or> msg_createdAt m \<ge> now e - h * 60 * 60 * 1000)
                               msgs0
                        else msgs0)
        in case member of
             None \<Rightarrow> (MessagesJson msgs, s1)
           | Some mem \<Rightarrow>
               (case m_firstLoginAt mem of
                  None \<Rightarrow> (MessagesJson msgs, s1)
                | Some t \<Rightarrow>
                    if \<not> isAdminRole (m_role mem)
                    then (MessagesJson (filter (\<lambda>m. msg_isPinned m \<or> msg_createdAt m \<ge> t) msgs), s1)
                    else (MessagesJson msgs, s1)))"

subsection \<open>POST /api/messages\<close>

record post_body =
  b_content :: "string option"
  b_type :: "string option"
  b_fileUrl :: "string option"
  b_fileName :: "string option"
  b_replyToId :: "string option"

text \<open>The block guarded by \<open>req.body.content && !isAdminRole(sender.role)\<close>: the message
  of the rejection, if any.\<close>

definition contentRejection :: "store \<Rightarrow> chat_settings \<Rightarrow> string \<Rightarrow> string option" where
  "contentRejection s settings content =
     (let keywords = getBlockedKeywords s;
          contentLower = toLowerCase content;
          blocked = find (\<lambda>k. str_includes contentLower (k_keyword k)) keywords
      in if blocked \<noteq> None
         then Some ''Your message contains a restricted word and cannot be sent.''
         else if phoneNumberFilterEnabled settings \<and> containsPhoneNumber content
         then Some ''Sharing phone numbers is not allowed in this chat.''
         else None)"

text \<open>The reply notification; it returns the ids notified so far (\<open>notifiedIds\<close>).\<close>

definition notifyReply ::
  "env \<Rightarrow> ident \<Rightarrow> message \<Rightarrow> string option \<Rightarrow> store \<Rightarrow> ident list \<times> store \<times> event list" where
  "notifyReply e senderId msg replyToId s =
     (if truthy replyToId then
        (case getMessage s (textOf replyToId) of
           None \<Rightarrow> ([], s, [])
         | Some repliedMsg \<Rightarrow>
             if msg_senderId repliedMsg \<noteq> senderId then
               (case createNotification e
                       \<lparr> in_recipientId = msg_senderId repliedMsg, in_senderId = senderId,
                         in_messageId = msg_id msg, in_type = ''reply'' \<rparr> s of
                  (notif, s') \<Rightarrow>
                    ([msg_senderId repliedMsg], s',
                     [NotificationEv (msg_senderId repliedMsg) notif]))
             else ([], s, []))
      else ([], s, []))"

text \<open>The loop over the mention tokens, with \<open>notifiedIds\<close> as an accumulator.\<close>

fun notifyMentions ::
  "env \<Rightarrow> ident \<Rightarrow> message \<Rightarrow> member list \<Rightarrow> string list \<Rightarrow> ident list \<Rightarrow> store
     \<Rightarrow> store \<times> event list" where
  "notifyMentions e senderId msg allMembers [] notifiedIds s = (s, [])"
| "notifyMentions e senderId msg allMembers (mentionName # rest) notifiedIds s =
     (case find (\<lambda>m. toLowerCase (m_name m) = toLowerCase mentionName) allMembers of
        None \<Rightarrow> notifyMentions e senderId msg allMembers rest notifiedIds s
      | Some mentioned \<Rightarrow>
          if m_id mentioned \<noteq> senderId \<and> m_id mentioned \<notin> set notifiedIds then
            (case createNotification e
                    \<lparr> in_recipientId = m_id mentioned, in_senderId = senderId,
                      in_messageId = msg_id msg, in_type = ''mention'' \<rparr> s of
               (notif, s') \<Rightarrow>
                 (case notifyMentions e senderId msg allMembers rest
                         (notifiedIds @ [m_id mentioned]) s' of
                    (s'', evs) \<Rightarrow> (s'', NotificationEv (m_id mentioned) notif # evs)))
          else notifyMentions e senderId msg allMembers rest notifiedIds s)"

text \<open>The handler after the checks: the message is stored and broadcast, then the
  notifications are created and broadcast.\<close>

definition persistAndNotify ::
  "env \<Rightarrow> ident \<Rightarrow> post_body \<Rightarrow> store \<Rightarrow> response \<times> store \<times> event list" where
  "persistAndNotify e senderId body s1 =
     (let mentions = mentionTokens (textOf (b_content body)) in
      case createMessage e
             \<lparr> im_senderId = senderId, im_content = b_content body,
               im_type = (if truthy (b_type body) then textOf (b_type body) else ''text''),
               im_fileUrl = orNull (b_fileUrl body),
               im_fileName = orNull (b_fileName body),
               im_replyToId = orNull (b_replyToId body),
               im_mentions = (if mentions \<noteq> [] then Some mentions else None) \<rparr> s1 of
        (msg, s2) \<Rightarrow>
          (case notifyReply e senderId msg (b_replyToId body) s2 of
             (notifiedIds, s3, evs1) \<Rightarrow>
               (case notifyMentions e senderId msg (getAllMembers s3) mentions notifiedIds s3 of
                  (s4, evs2) \<Rightarrow> (MessageJson msg, s4, NewMessage msg # evs1 @ evs2))))"

definition postMessage ::
  "env \<Rightarrow> ident option \<Rightarrow> post_body \<Rightarrow> store \<Rightarrow> response \<times> store \<times> event list" where
  "postMessage e session body s =
     (if \<not> truthy session then (Fail 401 ''Not authenticated'', s, [])
      else
        let senderId = textOf session in
        case getMember s senderId of
          None \<Rightarrow> (Fail 400 ''Invalid sender'', s, [])
        | Some sender \<Rightarrow>
            if isRestricted e sender
            then (Fail 403 ''You are restricted from sending messages'', s, [])
            else
              (case getChatSettings s of (settings, s1) \<Rightarrow>
                 if chatDisabled settings \<and> \<not> isAdminRole (m_role sender)
                 then (Fail 403 ''Chat is disabled'', s1, [])
                 else
                   (case (if truthy (b_content body) \<and> \<not> isAdminRole (m_role sender)
                          then contentRejection s1 settings (textOf (b_content body))
                          else None) of
                      Some reason \<Rightarrow> (Fail 403 reason, s1, [])
                    | None \<Rightarrow> persistAndNotify e senderId body s1)))"

subsection \<open>POST /api/messages/upload\<close>

text \<open>\<open>req.file\<close> as multer hands it over: absent when no file was sent or the file
  filter refused its type.\<close>

record upload_file =
  f_filename :: string
  f_mimetype :: string
  f_originalname :: string

definition uploadMessage ::
  "env \<Rightarrow> ident option \<Rightarrow> upload_file option \<Rightarrow> string option \<Rightarrow> store
     \<Rightarrow> response \<times> store \<times> event list" where
  "uploadMessage e session file bodyReplyToId s =
     (if \<not> truthy session then (Fail 401 ''Not authenticated'', s, [])
      else case file of
        None \<Rightarrow> (Fail 400 ''No file uploaded'', s, [])
      | Some f \<Rightarrow>
          (let senderId = textOf session in
           case getMember s senderId of
             None \<Rightarrow> (Fail 400 ''Invalid sender'', s, [])
           | Some sender \<Rightarrow>
               if isRestricted e sender
               then (Fail 403 ''You are restricted from sending messages'', s, [])
               else
                 (case getChatSettings s of (settings, s1) \<Rightarrow>
                    if memberFileSendDisabled settings \<and> \<not> isAdminRole (m_role sender)
                    then (Fail 403 ''File sharing is currently disabled for members.'', s1, [])
                    else
                      (let fileUrl = ''/uploads/'' @ f_filename f;
                           isImage = startsWith (f_mimetype f) ''image/'';
                           replyToId = orNull bodyReplyToId
                       in case createMessage e
                                 \<lparr> im_senderId = senderId, im_content = None,
                                   im_type = (if isImage then ''image'' else ''file''),
                                   im_fileUrl = Some fileUrl,
                                   im_fileName = Some (f_originalname f),
                                   im_replyToId = replyToId, im_mentions = None \<rparr> s1 of
                            (msg, s2) \<Rightarrow>
                              (case notifyReply e senderId msg replyToId s2 of
                                 (notifiedIds, s3, evs1) \<Rightarrow>
                                   (MessageJson msg, s3, NewMessage msg # evs1))))))"

subsection \<open>Pinning and deleting messages\<close>

definition pinRoute :: "ident option \<Rightarrow> ident \<Rightarrow> store \<Rightarrow> response \<times> store \<times> event list" where
  "pinRoute session i s =
     (case requireAdmin s session of
        Some denied \<Rightarrow> (denied, s, [])
      | None \<Rightarrow> (SuccessJson, pinMessage i s, [MessagePinned i]))"

text \<open>The test both delete routes make for a sub-admin: the message exists and its
  sender holds the primary admin's phone.\<close>

definition protectedMessage :: "store \<Rightarrow> member option \<Rightarrow> message option \<Rightarrow> bool" where
  "protectedMessage s requestingMember message =
     (case message of
        None \<Rightarrow> False
      | Some msg \<Rightarrow>
          (case requestingMember of
             None \<Rightarrow> False
           | Some rm \<Rightarrow>
               m_role rm = ''sub-admin'' \<and>
               (case getMember s (msg_senderId msg) of
                  None \<Rightarrow> False
                | Some sender \<Rightarrow> m_phone sender = PRIMARY_ADMIN_PHONE)))"

definition deleteMessageRoute ::
  "ident option \<Rightarrow> ident \<Rightarrow> store \<Rightarrow> response \<times> store \<times> event list" where
  "deleteMessageRoute session i s =
     (case requireAdmin s session of
        Some denied \<Rightarrow> (denied, s, [])
      | None \<Rightarrow>
          if protectedMessage s (getMember s (textOf session)) (getMessage s i)
          then (Fail 403 ''Sub-admins cannot delete primary admin messages'', s, [])
          else (SuccessJson, deleteMessage i s, [MessageDeleted (Some i)]))"

text \<open>The loop of the bulk delete, with the store and the two counters.\<close>

fun bulkDeleteLoop ::
  "member option \<Rightarrow> ident list \<Rightarrow> store \<Rightarrow> nat \<Rightarrow> nat \<Rightarrow> store \<times> nat \<times> nat" where
  "bulkDeleteLoop requestingMember [] s deletedCount skippedCount =
     (s, deletedCount, skippedCount)"
| "bulkDeleteLoop requestingMember (msgId # rest) s deletedCount skippedCount =
     (let message = getMessage s msgId in
      if protectedMessage s requestingMember message
      then bulkDeleteLoop requestingMember rest s deletedCount (skippedCount + 1)
      else if message \<noteq> None
      then bulkDeleteLoop requestingMember rest (deleteMessage msgId s) (deletedCount + 1)
             skippedCount
      else bulkDeleteLoop requestingMember rest s deletedCount skippedCount)"

text \<open>\<open>messageIds\<close> is \<open>None\<close> when the body carries no array.\<close>

definition bulkDeleteRoute ::
  "ident option \<Rightarrow> ident list option \<Rightarrow> store \<Rightarrow> response \<times> store \<times> event list" where
  "bulkDeleteRoute session messageIds s =
     (case requireAdmin s session of
        Some denied \<Rightarrow> (denied, s, [])
      | None \<Rightarrow>
          (case messageIds of
             None \<Rightarrow> (Fail 400 ''No messages selected'', s, [])
           | Some ids \<Rightarrow>
               if ids = [] then (Fail 400 ''No messages selected'', s, [])
               else
                 (case bulkDeleteLoop (getMember s (textOf session)) ids s 0 0 of
                    (s', deletedCount, skippedCount) \<Rightarrow>
                      (BulkDeleteJson deletedCount skippedCount, s', [MessageDeleted None]))))"

subsection \<open>Members\<close>

record patch_body =
  pb_name :: "string option"
  pb_phone :: "string option"
  pb_isActive :: "bool option"

definition subAdminOnPrimary :: "member option \<Rightarrow> member option \<Rightarrow> bool" where
  "subAdminOnPrimary target requestingMember =
     ((case target of None \<Rightarrow> False | Some t \<Rightarrow> m_phone t = PRIMARY_ADMIN_PHONE)
      \<and> (case requestingMember of None \<Rightarrow> False | Some rm \<Rightarrow> m_role rm = ''sub-admin''))"

definition allowedFields :: "patch_body \<Rightarrow> member \<Rightarrow> member" where
  "allowedFields body m =
     (let m1 = (case pb_name body of None \<Rightarrow> m | Some v \<Rightarrow> m\<lparr>m_name := v\<rparr>);
          m2 = (case pb_phone body of None \<Rightarrow> m1 | Some v \<Rightarrow> m1\<lparr>m_phone := v\<rparr>)
      in (case pb_isActive body of None \<Rightarrow> m2 | Some v \<Rightarrow> m2\<lparr>m_isActive := v\<rparr>))"

text \<open>The \<open>phone\<close> column is unique; an update that would repeat a phone fails in the
  database and the handler's \<open>catch\<close> answers 400 with the database's message.\<close>

definition patchMember ::
  "ident option \<Rightarrow> ident \<Rightarrow> patch_body \<Rightarrow> store \<Rightarrow> response \<times> store \<times> event list" where
  "patchMember session targetId body s =
     (case requireAdmin s session of
        Some denied \<Rightarrow> (denied, s, [])
      | None \<Rightarrow>
          (case getMember s targetId of
             None \<Rightarrow> (Fail 404 ''Member not found'', s, [])
           | Some target \<Rightarrow>
               if subAdminOnPrimary (Some target) (getMember s (textOf session))
               then (Fail 403 ''Sub-admins cannot modify the primary admin'', s, [])
               else if pb_name body = None \<and> pb_phone body = None \<and> pb_isActive body = None
               then (Fail 400 ''No valid fields to update'', s, [])
               else if (\<exists>v. pb_phone body = Some v \<and>
                          (\<exists>m \<in> set (members s). m_id m \<noteq> targetId \<and> m_phone m = v))
               then (Fail 400 ''duplicate key value violates unique constraint'', s, [])
               else
                 (case updateMember targetId (allowedFields body) s of
                    (updated, s') \<Rightarrow> (MemberJson updated, s', [MemberUpdated updated]))))"

text \<open>\<open>hours\<close> is \<open>req.body.hours\<close>; absent or zero, it counts as 1.\<close>

definition restrictMember ::
  "env \<Rightarrow> ident option \<Rightarrow> ident \<Rightarrow> int option \<Rightarrow> store \<Rightarrow> response \<times> store \<times> event list" where
  "restrictMember e session targetId bodyHours s =
     (case requireAdmin s session of
        Some denied \<Rightarrow> (denied, s, [])
      | None \<Rightarrow>
          if subAdminOnPrimary (getMember s targetId) (getMember s (textOf session))
          then (Fail 403 ''Sub-admins cannot restrict the primary admin'', s, [])
          else
            (let hours = (case bodyHours of None \<Rightarrow> 1 | Some h \<Rightarrow> if h = 0 then 1 else h);
                 until = now e + hours * 60 * 60 * 1000
             in case updateMember targetId (\<lambda>m. m\<lparr>m_restrictedUntil := Some until\<rparr>) s of
                  (updated, s') \<Rightarrow> (MemberJson updated, s', [MemberUpdated updated])))"

definition unrestrictMember ::
  "ident option \<Rightarrow> ident \<Rightarrow> store \<Rightarrow> response \<times> store \<times> event list" where
  "unrestrictMember session targetId s =
     (case requireAdmin s session of
        Some denied \<Rightarrow> (denied, s, [])
      | None \<Rightarrow>
          (case updateMember targetId (\<lambda>m. m\<lparr>m_restrictedUntil := None\<rparr>) s of
             (updated, s') \<Rightarrow> (MemberJson updated, s', [MemberUpdated updated])))"

definition deleteMemberRoute ::
  "ident option \<Rightarrow> ident \<Rightarrow> store \<Rightarrow> response \<times> store \<times> event list" where
  "deleteMemberRoute session targetId s =
     (case requireAdmin s session of
        Some denied \<Rightarrow> (denied, s, [])
      | None \<Rightarrow>
          (case getMember s targetId of
             None \<Rightarrow> (Fail 404 ''Member not found'', s, [])
           | Some target \<Rightarrow>
               if m_phone target = PRIMARY_ADMIN_PHONE
               then (Fail 403 ''Cannot delete the primary admin'', s, [])
               else if m_role target = ''sub-admin''
                       \<and> (case getMember s (textOf session) of
                             None \<Rightarrow> False | Some rm \<Rightarrow> m_role rm = ''sub-admin'')
               then (Fail 403 ''Sub-admins cannot delete other sub-admins'', s, [])
               else (SuccessJson, deleteMember targetId s, [MemberUpdated None])))"

subsection \<open>Blocked keywords\<close>

text \<open>\<open>bodyKeyword\<close> is \<open>req.body.keyword\<close>; the routes trim it and refuse an empty
  result before the storage layer lower-cases and trims it again.\<close>

definition postBlockedKeyword ::
  "env \<Rightarrow> ident option \<Rightarrow> string option \<Rightarrow> store \<Rightarrow> response \<times> store" where
  "postBlockedKeyword e session bodyKeyword s =
     (case requireAdmin s session of
        Some denied \<Rightarrow> (denied, s)
      | None \<Rightarrow>
          (let keyword = map_option trim bodyKeyword in
           if \<not> truthy keyword then (Fail 400 ''Keyword is required'', s)
           else
             (case addBlockedKeyword e (textOf keyword) s of
                None \<Rightarrow> (Fail 400 ''duplicate key value violates unique constraint'', s)
              | Some (created, s') \<Rightarrow> (KeywordJson created, s'))))"

definition patchBlockedKeyword ::
  "ident option \<Rightarrow> ident \<Rightarrow> string option \<Rightarrow> store \<Rightarrow> response \<times> store" where
  "patchBlockedKeyword session i bodyKeyword s =
     (case requireAdmin s session of
        Some denied \<Rightarrow> (denied, s)
      | None \<Rightarrow>
          (let keyword = map_option trim bodyKeyword in
           if \<not> truthy keyword then (Fail 400 ''Keyword is required'', s)
           else
             (case updateBlockedKeyword i (textOf keyword) s of
                None \<Rightarrow> (Fail 400 ''duplicate key value violates unique constraint'', s)
              | Some (None, s') \<Rightarrow> (Fail 404 ''Keyword not found'', s')
              | Some (Some updated, s') \<Rightarrow> (KeywordJson updated, s'))))"

definition deleteBlockedKeyword :: "ident option \<Rightarrow> ident \<Rightarrow> store \<Rightarrow> response \<times> store" where
  "deleteBlockedKeyword session i s =
     (case requireAdmin s session of
        Some denied \<Rightarrow> (denied, s)
      | None \<Rightarrow> (SuccessJson, removeBlockedKeyword i s))"

subsection \<open>The WebSocket server and the presence map\<close>













section \<open>Vocabulary of the claims\<close>

text \<open>Predicates and projections in which the claims are stated; those named \<open>spec_\<close>
  follow the words of the specification.\<close>

subsection \<open>The policy checks\<close>

text \<open>
  The state of the keyword table that the keyword routes maintain: every stored keyword
  is non-empty and in lower case. \<open>spec_containsCI\<close> is the specification's
  case-insensitive substring: the keyword occurs in the content once both are put in lower
  case. \<open>spec_digitRun\<close> is its run of ten or more consecutive digits.
\<close>

definition keywordsNormalised :: "store \<Rightarrow> bool" where
  "keywordsNormalised s =
     (\<forall>k \<in> set (blockedKeywords s). k_keyword k \<noteq> [] \<and> toLowerCase (k_keyword k) = k_keyword k)"

definition spec_containsCI :: "string \<Rightarrow> string \<Rightarrow> bool" where
  "spec_containsCI content keyword =
     (\<exists>pre post. toLowerCase content = pre @ toLowerCase keyword @ post)"

definition spec_digitRun :: "string \<Rightarrow> bool" where
  "spec_digitRun txt =
     (\<exists>pre ds post. txt = pre @ ds @ post \<and> 10 \<le> length ds \<and> (\<forall>c \<in> set ds. isDigit c))"

subsection \<open>Visibility\<close>

text \<open>
  The visibility rules of the specification for one message, as amended for claim C2 (a
  stored window of 0 hours counts as no window): not soft-deleted; with a window of \<open>w\<close>
  hours stored, pinned or not older than \<open>now - w\<close>; for a viewer with a first-login
  timestamp who is not admin or sub-admin, pinned or not created before that timestamp.
\<close>

definition spec_visible :: "env \<Rightarrow> chat_settings \<Rightarrow> member option \<Rightarrow> message \<Rightarrow> bool" where
  "spec_visible e settings viewer m =
     (\<not> msg_isDeleted m
      \<and> (case disappearAfterHours settings of
            None \<Rightarrow> True
          | Some w \<Rightarrow> w = 0 \<or> msg_isPinned m \<or> \<not> msg_createdAt m < now e - w * 60 * 60 * 1000)
      \<and> (case viewer of
            None \<Rightarrow> True
          | Some v \<Rightarrow>
              (case m_firstLoginAt v of
                 None \<Rightarrow> True
               | Some t \<Rightarrow> isAdminRole (m_role v) \<or> msg_isPinned m \<or> \<not> msg_createdAt m < t)))"

subsection \<open>Notifications\<close>

text \<open>
  The vocabulary of the fan-out: the notifications a request added to the table; the
  member a reply is addressed to (the sender of the reply target, unless that is the
  sending member); the member a mention token resolves to (the first member of the roster
  whose name equals the token up to case); and the ids the mention loop notifies, in order,
  given the ids notified before it.
\<close>

definition newNotifications :: "store \<Rightarrow> store \<Rightarrow> notification list" where
  "newNotifications s s' = drop (length (notifications s)) (notifications s')"

definition spec_replyTarget :: "store \<Rightarrow> ident \<Rightarrow> string option \<Rightarrow> ident option" where
  "spec_replyTarget s senderId replyToId =
     (if truthy replyToId then
        (case getMessage s (textOf replyToId) of
           None \<Rightarrow> None
         | Some repliedMsg \<Rightarrow>
             if msg_senderId repliedMsg \<noteq> senderId then Some (msg_senderId repliedMsg) else None)
      else None)"

definition mentioned :: "member list \<Rightarrow> string \<Rightarrow> member option" where
  "mentioned allMembers mentionName =
     find (\<lambda>m. toLowerCase (m_name m) = toLowerCase mentionName) allMembers"

fun mentionRecipients :: "ident \<Rightarrow> member list \<Rightarrow> string list \<Rightarrow> ident list \<Rightarrow> ident list" where
  "mentionRecipients senderId allMembers [] notifiedIds = []"
| "mentionRecipients senderId allMembers (mentionName # rest) notifiedIds =
     (case mentioned allMembers mentionName of
        None \<Rightarrow> mentionRecipients senderId allMembers rest notifiedIds
      | Some m \<Rightarrow>
          if m_id m \<noteq> senderId \<and> m_id m \<notin> set notifiedIds
          then m_id m # mentionRecipients senderId allMembers rest (notifiedIds @ [m_id m])
          else mentionRecipients senderId allMembers rest notifiedIds)"

subsection \<open>Reactions\<close>

text \<open>The (message, member) pair of a reaction row, the rows of the pair a toggle is
  about, and a run of toggles by any members, each at its own time.\<close>

definition reactionKey :: "reaction \<Rightarrow> ident \<times> ident" where
  "reactionKey r = (r_messageId r, r_memberId r)"

definition reactionsOf :: "insert_reaction \<Rightarrow> store \<Rightarrow> reaction list" where
  "reactionsOf d s =
     filter (\<lambda>r. r_messageId r = ir_messageId d \<and> r_memberId r = ir_memberId d) (reactions s)"

fun toggleAll :: "(env \<times> insert_reaction) list \<Rightarrow> store \<Rightarrow> store" where
  "toggleAll [] s = s"
| "toggleAll ((e, d) # rest) s = toggleAll rest (toggleReaction e d s)"

subsection \<open>Message shape and the primary admin's messages\<close>

definition shapeInvariant :: "message \<Rightarrow> bool" where
  "shapeInvariant m =
     (if msg_type m = ''text'' then msg_fileUrl m = None else msg_content m = None)"

definition sentByPrimary :: "store \<Rightarrow> message \<Rightarrow> bool" where
  "sentByPrimary s m =
     (case getMember s (msg_senderId m) of
        None \<Rightarrow> False
      | Some sender \<Rightarrow> m_phone sender = PRIMARY_ADMIN_PHONE)"

subsection \<open>The presence map\<close>



subsection \<open>Bulk deletion\<close>

text \<open>
  For a list of message ids: how many of its entries name a message that the primary
  admin did not send, how many name one that the primary admin sent, and the store in
  which exactly the listed messages not sent by the primary admin are soft-deleted.
\<close>

definition deletableId :: "store \<Rightarrow> ident \<Rightarrow> bool" where
  "deletableId s i = (\<exists>m \<in> set (messages s). msg_id m = i \<and> \<not> sentByPrimary s m)"

definition protectedId :: "store \<Rightarrow> ident \<Rightarrow> bool" where
  "protectedId s i = (\<exists>m \<in> set (messages s). msg_id m = i \<and> sentByPrimary s m)"

definition bulkDeleted :: "store \<Rightarrow> ident list \<Rightarrow> store" where
  "bulkDeleted s ids =
     s\<lparr>messages :=
         map (\<lambda>m. if msg_id m \<in> set ids \<and> \<not> sentByPrimary s m
                  then m\<lparr>msg_isDeleted := True, msg_isPinned := False\<rparr> else m)
           (messages s)\<rparr>"

section \<open>Example data\<close>

text \<open>A small community in the shape of the seed data: the primary admin, a sub-admin and
  two members, with two text messages.\<close>

definition demoEnv :: env where
  "demoEnv = \<lparr> now = 1000000000, gen_random_uuid = (\<lambda>n. ''uuid-'' @ replicate n (CHR ''i'')) \<rparr>"

definition demoMember :: "ident \<Rightarrow> string \<Rightarrow> string \<Rightarrow> string \<Rightarrow> member" where
  "demoMember i name phone role =
     \<lparr> m_id = i, m_name = name, m_phone = phone, m_role = role, m_isActive = True,
       m_restrictedUntil = None, m_profilePicture = None, m_projectsCompleted = 0,
       m_totalProjectValue = ''0'', m_firstLoginAt = None \<rparr>"

definition demoText :: "ident \<Rightarrow> ident \<Rightarrow> string \<Rightarrow> int \<Rightarrow> message" where
  "demoText i sender content t =
     \<lparr> msg_id = i, msg_senderId = sender, msg_content = Some content, msg_type = ''text'',
       msg_fileUrl = None, msg_fileName = None, msg_isPinned = False, msg_isDeleted = False,
       msg_replyToId = None, msg_mentions = None, msg_createdAt = t \<rparr>"

definition demoSettings :: chat_settings where
  "demoSettings = \<lparr> chatDisabled = False, disappearAfterHours = None,
                     memberFileSendDisabled = False, phoneNumberFilterEnabled = True \<rparr>"

definition demoStore :: store where
  "demoStore =
     \<lparr> members = [demoMember ''admin'' ''Admin'' ''7030809030'' ''admin'',
                   demoMember ''sub'' ''Sub Admin'' ''9000000001'' ''sub-admin'',
                   demoMember ''ravi'' ''Ravi Sharma'' ''9876543210'' ''member'',
                   demoMember ''priya'' ''Priya Patel'' ''9876543211'' ''member''],
       messages = [demoText ''m1'' ''admin'' ''Welcome'' 1000,
                   demoText ''m2'' ''ravi'' ''Thanks'' 2000],
       reactions = [], chatSettings = Some demoSettings, blockedKeywords = [],
       notifications = [], draws = 0 \<rparr>"

definition demoBody :: "string \<Rightarrow> post_body" where
  "demoBody content = \<lparr> b_content = Some content, b_type = Some ''text'', b_fileUrl = None,
                         b_fileName = None, b_replyToId = None \<rparr>"

definition demoFile :: upload_file where
  "demoFile = \<lparr> f_filename = ''1000000000-cat.png'', f_mimetype = ''image/png'',
                 f_originalname = ''cat.png'' \<rparr>"

text \<open>Variants of the store and requests for the single claims.\<close>

definition demoSpam :: blocked_keyword where
  "demoSpam = \<lparr> k_id = ''k1'', k_keyword = ''spam'', k_createdAt = 500 \<rparr>"

definition keywordStore :: store where
  "keywordStore = demoStore\<lparr>blockedKeywords := [demoSpam]\<rparr>"

definition restrictedStore :: store where
  "restrictedStore =
     demoStore\<lparr>members :=
       [demoMember ''admin'' ''Admin'' ''7030809030'' ''admin'',
        (demoMember ''sub'' ''Sub Admin'' ''9000000001'' ''sub-admin'')
          \<lparr>m_restrictedUntil := Some 2000000000\<rparr>,
        (demoMember ''ravi'' ''Ravi Sharma'' ''9876543210'' ''member'')
          \<lparr>m_restrictedUntil := Some 2000000000\<rparr>,
        demoMember ''priya'' ''Priya Patel'' ''9876543211'' ''member'']\<rparr>"

definition zeroWindowStore :: store where
  "zeroWindowStore = demoStore\<lparr>chatSettings := Some (demoSettings\<lparr>disappearAfterHours := Some 0\<rparr>)\<rparr>"

definition windowStore :: store where
  "windowStore =
     \<lparr> members = [(demoMember ''admin'' ''Admin'' ''7030809030'' ''admin'')
                      \<lparr>m_firstLoginAt := Some 955000000\<rparr>,
                   (demoMember ''priya'' ''Priya Patel'' ''9876543211'' ''member'')
                      \<lparr>m_firstLoginAt := Some 955000000\<rparr>],
       messages = [(demoText ''m1'' ''admin'' ''Rules'' 1000)\<lparr>msg_isPinned := True\<rparr>,
                   demoText ''m2'' ''admin'' ''Old'' 2000,
                   demoText ''m5'' ''priya'' ''Newest'' 990000000,
                   demoText ''m3'' ''admin'' ''Before the login'' 950000000,
                   (demoText ''m4'' ''admin'' ''Removed'' 960000000)\<lparr>msg_isDeleted := True\<rparr>],
       reactions = [], chatSettings = Some (demoSettings\<lparr>disappearAfterHours := Some 24\<rparr>),
       blockedKeywords = [], notifications = [], draws = 0 \<rparr>"

definition bobsStore :: store where
  "bobsStore =
     demoStore\<lparr>members :=
       [demoMember ''admin'' ''Admin'' ''7030809030'' ''admin'',
        demoMember ''bob1'' ''Bob'' ''9000000002'' ''member'',
        demoMember ''bob2'' ''Bob'' ''9000000003'' ''member'',
        demoMember ''ravi'' ''Ravi Sharma'' ''9876543210'' ''member'']\<rparr>"

definition demoReply :: post_body where
  "demoReply = \<lparr> b_content = Some ''@Admin, @Priya Patel, @Ravi Sharma'', b_type = Some ''text'',
                  b_fileUrl = None, b_fileName = None, b_replyToId = Some ''m2'' \<rparr>"

definition demoReplyMessage :: message where
  "demoReplyMessage =
     \<lparr> msg_id = ''uuid-'', msg_senderId = ''priya'',
       msg_content = Some ''@Admin, @Priya Patel, @Ravi Sharma'', msg_type = ''text'',
       msg_fileUrl = None, msg_fileName = None, msg_isPinned = False, msg_isDeleted = False,
       msg_replyToId = Some ''m2'',
       msg_mentions = Some [''Admin'', ''Priya Patel'', ''Ravi Sharma''],
       msg_createdAt = 1000000000 \<rparr>"

definition demoHeart :: insert_reaction where
  "demoHeart = \<lparr> ir_messageId = ''m1'', ir_memberId = ''ravi'', ir_emoji = ''heart'' \<rparr>"

definition demoThumb :: insert_reaction where
  "demoThumb = \<lparr> ir_messageId = ''m1'', ir_memberId = ''ravi'', ir_emoji = ''thumb'' \<rparr>"


definition chatDisabledStore :: store where
  "chatDisabledStore = demoStore\<lparr>chatSettings := Some (demoSettings\<lparr>chatDisabled := True\<rparr>)\<rparr>"

definition demoImage :: message where
  "demoImage =
     \<lparr> msg_id = ''uuid-'', msg_senderId = ''ravi'', msg_content = None, msg_type = ''image'',
       msg_fileUrl = Some ''/uploads/1000000000-cat.png'', msg_fileName = Some ''cat.png'',
       msg_isPinned = False, msg_isDeleted = False, msg_replyToId = None, msg_mentions = None,
       msg_createdAt = 1000000000 \<rparr>"

definition demoStored :: "message \<Rightarrow> store" where
  "demoStored m = demoStore\<lparr>messages := messages demoStore @ [m], draws := 1\<rparr>"

definition adminRestrictedStore :: store where
  "adminRestrictedStore =
     demoStore\<lparr>members :=
       [(demoMember ''admin'' ''Admin'' ''7030809030'' ''admin'')
          \<lparr>m_restrictedUntil := Some 2000000000\<rparr>,
        demoMember ''sub'' ''Sub Admin'' ''9000000001'' ''sub-admin'',
        demoMember ''ravi'' ''Ravi Sharma'' ''9876543210'' ''member'',
        demoMember ''priya'' ''Priya Patel'' ''9876543211'' ''member'']\<rparr>"

definition demoHeartRow :: "ident \<Rightarrow> reaction" where
  "demoHeartRow i = \<lparr> r_id = i, r_messageId = ''m1'', r_memberId = ''ravi'',
                       r_emoji = ''heart'' \<rparr>"


section \<open>Lemmas on strings and the keyword table\<close>

lemma lowerChar_idem: "lowerChar (lowerChar c) = lowerChar c"
  by (simp add: lowerChar_def Let_def)

lemma isSpace_lowerChar: "isSpace (lowerChar c) = isSpace c"
  by (auto simp: lowerChar_def isSpace_def Let_def)

lemma toLowerCase_idem: "toLowerCase (toLowerCase s) = toLowerCase s"
  by (simp add: toLowerCase_def lowerChar_idem)

lemma toLowerCase_Nil_iff: "toLowerCase s = [] \<longleftrightarrow> s = []"
  by (simp add: toLowerCase_def)

lemma dropWhile_isSpace_lower:
  "dropWhile isSpace (map lowerChar s) = map lowerChar (dropWhile isSpace s)"
  by (induction s) (simp_all add: isSpace_lowerChar)

lemma trim_toLowerCase: "trim (toLowerCase s) = toLowerCase (trim s)"
  by (simp add: trim_def toLowerCase_def dropWhile_isSpace_lower rev_map)

lemma trim_Nil_iff: "trim s = [] \<longleftrightarrow> (\<forall>c \<in> set s. isSpace c)"
proof -
  have "trim s = [] \<longleftrightarrow> dropWhile isSpace (rev (dropWhile isSpace s)) = []"
    by (simp add: trim_def)
  also have "\<dots> \<longleftrightarrow> (\<forall>c \<in> set (dropWhile isSpace s). isSpace c)"
    by (simp add: dropWhile_eq_Nil_conv)
  also have "\<dots> \<longleftrightarrow> dropWhile isSpace s = []"
    by (metis dropWhile_eq_Nil_conv dropWhile_idem)
  also have "\<dots> \<longleftrightarrow> (\<forall>c \<in> set s. isSpace c)"
    by (simp add: dropWhile_eq_Nil_conv)
  finally show ?thesis .
qed

lemma set_trim: "set (trim s) \<subseteq> set s"
proof -
  have "set (trim s) \<subseteq> set (dropWhile isSpace s)"
    unfolding trim_def by (metis set_dropWhileD set_rev subsetI)
  also have "\<dots> \<subseteq> set s"
    by (auto dest: set_dropWhileD)
  finally show ?thesis .
qed

lemma trim_trim_nonempty: "trim s \<noteq> [] \<Longrightarrow> trim (trim s) \<noteq> []"
proof -
  assume ne: "trim s \<noteq> []"
  let ?u = "dropWhile isSpace (rev (dropWhile isSpace s))"
  from ne have "?u \<noteq> []" by (simp add: trim_def)
  then have "\<not> isSpace (hd ?u)" by (rule hd_dropWhile)
  moreover from \<open>?u \<noteq> []\<close> have "hd ?u \<in> set (trim s)" by (simp add: trim_def)
  ultimately show ?thesis by (auto simp: trim_Nil_iff)
qed

lemma stored_keyword_normal:
  assumes "trim raw \<noteq> []"
  shows "trim (toLowerCase (trim raw)) \<noteq> []"
    and "toLowerCase (trim (toLowerCase (trim raw))) = trim (toLowerCase (trim raw))"
  using assms trim_trim_nonempty [of raw]
  by (simp_all add: trim_toLowerCase toLowerCase_idem toLowerCase_Nil_iff)

lemma startsWith_iff: "startsWith s k \<longleftrightarrow> (\<exists>post. s = k @ post)"
  unfolding startsWith_def
  by (metis append_eq_conv_conj append_take_drop_id)

lemma str_includes_iff: "str_includes s k \<longleftrightarrow> (\<exists>pre post. s = pre @ k @ post)"
proof (induction s)
  case Nil
  then show ?case by auto
next
  case (Cons c cs)
  show ?case
  proof
    assume "str_includes (c # cs) k"
    then consider "startsWith (c # cs) k" | "str_includes cs k" by auto
    then show "\<exists>pre post. c # cs = pre @ k @ post"
    proof cases
      case 1
      then obtain post where "c # cs = [] @ k @ post" by (auto simp: startsWith_iff)
      then show ?thesis by blast
    next
      case 2
      with Cons obtain pre post where "cs = pre @ k @ post" by auto
      then have "c # cs = (c # pre) @ k @ post" by simp
      then show ?thesis by blast
    qed
  next
    assume "\<exists>pre post. c # cs = pre @ k @ post"
    then obtain pre post where eq: "c # cs = pre @ k @ post" by auto
    show "str_includes (c # cs) k"
    proof (cases pre)
      case Nil
      with eq have "startsWith (c # cs) k" by (auto simp: startsWith_iff)
      then show ?thesis by simp
    next
      case (Cons a pre')
      with eq have "cs = pre' @ k @ post" by simp
      with Cons.IH show ?thesis by auto
    qed
  qed
qed

lemma find_sort_key_None:
  "find P (sort_key f xs) = None \<longleftrightarrow> (\<forall>x \<in> set xs. \<not> P x)"
  by (auto simp: find_None_iff)

lemma keyword_hit_iff:
  assumes "keywordsNormalised s"
  shows "(find (\<lambda>k. str_includes (toLowerCase c) (k_keyword k)) (getBlockedKeywords s) \<noteq> None)
         \<longleftrightarrow> (\<exists>k \<in> set (blockedKeywords s). spec_containsCI c (k_keyword k))"
proof -
  have "\<And>k. k \<in> set (blockedKeywords s) \<Longrightarrow> toLowerCase (k_keyword k) = k_keyword k"
    using assms by (simp add: keywordsNormalised_def)
  then show ?thesis
    by (auto simp: getBlockedKeywords_def find_sort_key_None spec_containsCI_def str_includes_iff)
qed

section \<open>Lemmas on sending a message\<close>

lemma getChatSettings_tables:
  "messages (snd (getChatSettings s)) = messages s"
  "members (snd (getChatSettings s)) = members s"
  "notifications (snd (getChatSettings s)) = notifications s"
  "blockedKeywords (snd (getChatSettings s)) = blockedKeywords s"
  "reactions (snd (getChatSettings s)) = reactions s"
  "draws (snd (getChatSettings s)) = draws s"
  by (simp_all add: getChatSettings_def Let_def split: option.splits)

lemma notifyReply_tables:
  assumes "notifyReply e sid msg rid s = (ids, s', evs)"
  shows "messages s' = messages s" and "members s' = members s"
  using assms
  by (auto simp: notifyReply_def createNotification_def Let_def split: if_splits option.splits)

lemma notifyMentions_tables:
  assumes "notifyMentions e sid msg ms toks ids s = (s', evs)"
  shows "messages s' = messages s \<and> members s' = members s"
  using assms
proof (induction toks arbitrary: ids s s' evs)
  case Nil
  then show ?case by simp
next
  case (Cons t toks)
  show ?case
  proof (cases "find (\<lambda>m. toLowerCase (m_name m) = toLowerCase t) ms")
    case None
    with Cons show ?thesis by simp
  next
    case (Some m)
    show ?thesis
    proof (cases "m_id m \<noteq> sid \<and> m_id m \<notin> set ids")
      case False
      with Some Cons show ?thesis by auto
    next
      case True
      obtain n s1 where c: "createNotification e
          \<lparr> in_recipientId = m_id m, in_senderId = sid, in_messageId = msg_id msg,
            in_type = ''mention'' \<rparr> s = (n, s1)"
        by (cases "createNotification e
          \<lparr> in_recipientId = m_id m, in_senderId = sid, in_messageId = msg_id msg,
            in_type = ''mention'' \<rparr> s") 
      obtain s2 evs2 where r: "notifyMentions e sid msg ms toks (ids @ [m_id m]) s1 = (s2, evs2)"
        by (cases "notifyMentions e sid msg ms toks (ids @ [m_id m]) s1")
      from c have t1: "messages s1 = messages s" "members s1 = members s"
        by (auto simp: createNotification_def Let_def)
      from Cons.prems Some True c r have "s' = s2" by simp
      with Cons.IH [OF r] t1 show ?thesis by simp
    qed
  qed
qed

lemma persistAndNotify_message:
  assumes "persistAndNotify e sid body s1 = (r, s', evs)"
  shows "\<exists>msg evs'. r = MessageJson msg \<and> evs = NewMessage msg # evs'
           \<and> messages s' = messages s1 @ [msg] \<and> members s' = members s1
           \<and> msg_id msg = gen_random_uuid e (draws s1)
           \<and> msg_senderId msg = sid
           \<and> msg_content msg = b_content body
           \<and> msg_type msg = (if truthy (b_type body) then textOf (b_type body) else ''text'')
           \<and> msg_fileUrl msg = orNull (b_fileUrl body)
           \<and> \<not> msg_isPinned msg \<and> \<not> msg_isDeleted msg"
proof -
  let ?d = "\<lparr> im_senderId = sid, im_content = b_content body,
               im_type = (if truthy (b_type body) then textOf (b_type body) else ''text''),
               im_fileUrl = orNull (b_fileUrl body),
               im_fileName = orNull (b_fileName body),
               im_replyToId = orNull (b_replyToId body),
               im_mentions = (if mentionTokens (textOf (b_content body)) \<noteq> []
                              then Some (mentionTokens (textOf (b_content body))) else None) \<rparr>"
  obtain msg s2 where c: "createMessage e ?d s1 = (msg, s2)"
    by (cases "createMessage e ?d s1")
  obtain ids s3 evs1 where n: "notifyReply e sid msg (b_replyToId body) s2 = (ids, s3, evs1)"
    by (cases "notifyReply e sid msg (b_replyToId body) s2") auto
  obtain s4 evs2 where m: "notifyMentions e sid msg (getAllMembers s3)
      (mentionTokens (textOf (b_content body))) ids s3 = (s4, evs2)"
    by (cases "notifyMentions e sid msg (getAllMembers s3)
      (mentionTokens (textOf (b_content body))) ids s3")
  from assms c n m have res: "r = MessageJson msg" "s' = s4" "evs = NewMessage msg # evs1 @ evs2"
    by (simp_all add: persistAndNotify_def Let_def)
  from c have msg: "messages s2 = messages s1 @ [msg]" "members s2 = members s1"
      "msg_id msg = gen_random_uuid e (draws s1)" "msg_senderId msg = sid"
      "msg_content msg = b_content body"
      "msg_type msg = (if truthy (b_type body) then textOf (b_type body) else ''text'')"
      "msg_fileUrl msg = orNull (b_fileUrl body)" "\<not> msg_isPinned msg" "\<not> msg_isDeleted msg"
    by (auto simp: createMessage_def Let_def)
  from notifyReply_tables [OF n] notifyMentions_tables [OF m] msg res
  show ?thesis by simp
qed

lemma postMessage_cases:
  assumes "truthy session" "getMember s (textOf session) = Some sender"
  shows "postMessage e session body s =
     (if isRestricted e sender
      then (Fail 403 ''You are restricted from sending messages'', s, [])
      else if chatDisabled (fst (getChatSettings s)) \<and> \<not> isAdminRole (m_role sender)
      then (Fail 403 ''Chat is disabled'', snd (getChatSettings s), [])
      else case (if truthy (b_content body) \<and> \<not> isAdminRole (m_role sender)
                 then contentRejection (snd (getChatSettings s)) (fst (getChatSettings s))
                        (textOf (b_content body))
                 else None) of
             Some reason \<Rightarrow> (Fail 403 reason, snd (getChatSettings s), [])
           | None \<Rightarrow> persistAndNotify e (textOf session) body (snd (getChatSettings s)))"
  using assms by (simp add: postMessage_def Let_def split_beta)

lemma postMessage_accepted:
  assumes "postMessage e session body s = (MessageJson m, s', evs)"
  shows "persistAndNotify e (textOf session) body (snd (getChatSettings s)) = (MessageJson m, s', evs)"
  using assms
  by (auto simp: postMessage_def Let_def split_beta split: if_splits option.splits)

section \<open>The policy checks of a text message (claim C1)\<close>

lemma containsPhoneNumber_Nil: "\<not> containsPhoneNumber []"
  by (simp add: containsPhoneNumber_def phonePatterns_def test_def cleaned_def atBoundary_def)

lemma keywordsNormalised_getChatSettings:
  "keywordsNormalised (snd (getChatSettings s)) = keywordsNormalised s"
  by (simp add: keywordsNormalised_def getChatSettings_tables)

lemma no_hit_on_empty:
  assumes "keywordsNormalised s" "k \<in> set (blockedKeywords s)"
  shows "\<not> spec_containsCI [] (k_keyword k)"
  using assms by (auto simp: keywordsNormalised_def spec_containsCI_def toLowerCase_def)

lemma contentRejection_cases:
  assumes "keywordsNormalised s"
  shows "contentRejection s settings c =
     (if \<exists>k \<in> set (blockedKeywords s). spec_containsCI c (k_keyword k)
      then Some ''Your message contains a restricted word and cannot be sent.''
      else if phoneNumberFilterEnabled settings \<and> containsPhoneNumber c
      then Some ''Sharing phone numbers is not allowed in this chat.''
      else None)"
  using keyword_hit_iff [OF assms, of c]
  by (simp add: contentRejection_def Let_def)

lemma content_check:
  assumes "keywordsNormalised s" "\<not> isAdminRole role"
  shows "(if truthy content \<and> \<not> isAdminRole role
          then contentRejection (snd (getChatSettings s)) settings (textOf content) else None) =
     (if \<exists>k \<in> set (blockedKeywords s). spec_containsCI (textOf content) (k_keyword k)
      then Some ''Your message contains a restricted word and cannot be sent.''
      else if phoneNumberFilterEnabled settings \<and> containsPhoneNumber (textOf content)
      then Some ''Sharing phone numbers is not allowed in this chat.''
      else None)"
proof (cases "truthy content")
  case True
  with assms show ?thesis
    by (simp add: contentRejection_cases keywordsNormalised_getChatSettings getChatSettings_tables)
next
  case False
  then have "textOf content = []"
    by (auto simp: truthy_def textOf_def split: option.splits)
  with False assms show ?thesis
    using no_hit_on_empty [OF assms(1)] containsPhoneNumber_Nil by auto
qed

lemma persistAndNotify_accepts:
  "\<exists>msg. fst (persistAndNotify e sid body s) = MessageJson msg"
  using persistAndNotify_message [of e sid body s]
  by (cases "persistAndNotify e sid body s") auto

lemma postMessage_member:
  assumes "truthy session" and "getMember s (textOf session) = Some sender"
    and "keywordsNormalised s" and "\<not> isAdminRole (m_role sender)"
  shows "postMessage e session body s =
     (if isRestricted e sender
      then (Fail 403 ''You are restricted from sending messages'', s, [])
      else if chatDisabled (fst (getChatSettings s))
      then (Fail 403 ''Chat is disabled'', snd (getChatSettings s), [])
      else if \<exists>k \<in> set (blockedKeywords s). spec_containsCI (textOf (b_content body)) (k_keyword k)
      then (Fail 403 ''Your message contains a restricted word and cannot be sent.'',
            snd (getChatSettings s), [])
      else if phoneNumberFilterEnabled (fst (getChatSettings s))
              \<and> containsPhoneNumber (textOf (b_content body))
      then (Fail 403 ''Sharing phone numbers is not allowed in this chat.'',
            snd (getChatSettings s), [])
      else persistAndNotify e (textOf session) body (snd (getChatSettings s)))"
  by (simp only: postMessage_cases [OF assms(1,2)] content_check [OF assms(3,4)])
     (simp add: assms(4))

lemma postMessage_admin:
  assumes "truthy session" and "getMember s (textOf session) = Some sender"
    and "isAdminRole (m_role sender)"
  shows "postMessage e session body s =
     (if isRestricted e sender
      then (Fail 403 ''You are restricted from sending messages'', s, [])
      else persistAndNotify e (textOf session) body (snd (getChatSettings s)))"
  by (simp add: postMessage_cases [OF assms(1,2)] assms(3))

text \<open>The keyword routes keep the keyword table normalised, and no other route writes
  it; the empty table is normalised.\<close>

lemma keyword_routes_keep_normalised:
  assumes "keywordsNormalised s"
  shows "keywordsNormalised (snd (postBlockedKeyword e session kw s))"
    and "keywordsNormalised (snd (patchBlockedKeyword session i kw s))"
    and "keywordsNormalised (snd (deleteBlockedKeyword session i s))"
proof -
  have stored: "truthy (map_option trim kw) \<Longrightarrow>
      trim (toLowerCase (textOf (map_option trim kw))) \<noteq> []
      \<and> toLowerCase (trim (toLowerCase (textOf (map_option trim kw))))
          = trim (toLowerCase (textOf (map_option trim kw)))"
    using stored_keyword_normal
    by (cases kw) (auto simp: truthy_def textOf_def)
  show "keywordsNormalised (snd (postBlockedKeyword e session kw s))"
    using assms stored
    by (auto simp: postBlockedKeyword_def addBlockedKeyword_def keywordsNormalised_def Let_def
        split: option.splits if_splits)
  show "keywordsNormalised (snd (patchBlockedKeyword session i kw s))"
    using assms stored
    by (auto simp: patchBlockedKeyword_def updateBlockedKeyword_def keywordsNormalised_def Let_def
        split: option.splits if_splits)
  show "keywordsNormalised (snd (deleteBlockedKeyword session i s))"
    using assms
    by (auto simp: deleteBlockedKeyword_def removeBlockedKeyword_def keywordsNormalised_def
        split: option.splits)
qed

text \<open>
  C1. For an authenticated text-message send by an existing member, the checks apply in a
  fixed order and the first failure decides the answer: (1) a sender whose
  \<open>restrictedUntil\<close> lies in the future is refused as restricted, whatever the role;
  (2) otherwise, with chat disabled, a sender who is not admin or sub-admin is refused;
  (3) otherwise a sender who is not admin or sub-admin and whose content contains a stored
  keyword as a case-insensitive substring is refused; (4) otherwise such a sender whose
  content matches the phone-number heuristic while the filter is on is refused. An
  unrestricted admin or sub-admin is accepted whatever the content, and so is a member
  whom no check refuses. On every refusal no message and no notification is stored and
  nothing is broadcast.
\<close>

theorem postMessage_policy_checks:
  assumes "truthy session" and "getMember s (textOf session) = Some sender"
    and "keywordsNormalised s"
  shows
    "(isRestricted e sender \<longrightarrow>
        fst (postMessage e session body s)
          = Fail 403 ''You are restricted from sending messages'')
     \<and> (\<not> isRestricted e sender \<and> chatDisabled (fst (getChatSettings s))
          \<and> \<not> isAdminRole (m_role sender) \<longrightarrow>
        fst (postMessage e session body s) = Fail 403 ''Chat is disabled'')
     \<and> (\<not> isRestricted e sender \<and> \<not> chatDisabled (fst (getChatSettings s))
          \<and> \<not> isAdminRole (m_role sender)
          \<and> (\<exists>k \<in> set (blockedKeywords s).
                spec_containsCI (textOf (b_content body)) (k_keyword k)) \<longrightarrow>
        fst (postMessage e session body s)
          = Fail 403 ''Your message contains a restricted word and cannot be sent.'')
     \<and> (\<not> isRestricted e sender \<and> \<not> chatDisabled (fst (getChatSettings s))
          \<and> \<not> isAdminRole (m_role sender)
          \<and> \<not> (\<exists>k \<in> set (blockedKeywords s).
                  spec_containsCI (textOf (b_content body)) (k_keyword k))
          \<and> phoneNumberFilterEnabled (fst (getChatSettings s))
          \<and> containsPhoneNumber (textOf (b_content body)) \<longrightarrow>
        fst (postMessage e session body s)
          = Fail 403 ''Sharing phone numbers is not allowed in this chat.'')
     \<and> (\<not> isRestricted e sender
          \<and> (isAdminRole (m_role sender)
               \<or> (\<not> chatDisabled (fst (getChatSettings s))
                   \<and> \<not> (\<exists>k \<in> set (blockedKeywords s).
                           spec_containsCI (textOf (b_content body)) (k_keyword k))
                   \<and> \<not> (phoneNumberFilterEnabled (fst (getChatSettings s))
                          \<and> containsPhoneNumber (textOf (b_content body))))) \<longrightarrow>
        (\<exists>msg. fst (postMessage e session body s) = MessageJson msg))
     \<and> ((\<exists>status reason. fst (postMessage e session body s) = Fail status reason) \<longrightarrow>
        messages (fst (snd (postMessage e session body s))) = messages s
        \<and> notifications (fst (snd (postMessage e session body s))) = notifications s
        \<and> snd (snd (postMessage e session body s)) = [])"
proof (cases "isAdminRole (m_role sender)")
  case True
  then show ?thesis
    using persistAndNotify_accepts [of e "textOf session" body "snd (getChatSettings s)"]
    by (auto simp: postMessage_admin [OF assms(1,2) True])
next
  case False
  show ?thesis
    using persistAndNotify_accepts [of e "textOf session" body "snd (getChatSettings s)"] False
    by (auto simp: postMessage_member [OF assms False] getChatSettings_tables)
qed

text \<open>A restricted sub-admin is refused as restricted; the member's message with the
  keyword in capitals is refused, nothing is stored or broadcast; the sub-admin's same
  message is accepted.\<close>

theorem postMessage_policy_checks_witness:
  "fst (postMessage demoEnv (Some ''sub'') (demoBody ''hello'') restrictedStore)
     = Fail 403 ''You are restricted from sending messages''
   \<and> spec_containsCI ''This is SPAM content'' ''spam''
   \<and> fst (postMessage demoEnv (Some ''ravi'') (demoBody ''This is SPAM content'') keywordStore)
       = Fail 403 ''Your message contains a restricted word and cannot be sent.''
   \<and> messages (fst (snd (postMessage demoEnv (Some ''ravi'')
         (demoBody ''This is SPAM content'') keywordStore))) = messages keywordStore
   \<and> snd (snd (postMessage demoEnv (Some ''ravi'')
         (demoBody ''This is SPAM content'') keywordStore)) = []
   \<and> (\<exists>msg. fst (postMessage demoEnv (Some ''sub'') (demoBody ''This is SPAM content'')
                keywordStore) = MessageJson msg)"
proof -
  let ?subR = "(demoMember ''sub'' ''Sub Admin'' ''9000000001'' ''sub-admin'')
                 \<lparr>m_restrictedUntil := Some 2000000000\<rparr>"
  let ?sub = "demoMember ''sub'' ''Sub Admin'' ''9000000001'' ''sub-admin''"
  let ?ravi = "demoMember ''ravi'' ''Ravi Sharma'' ''9876543210'' ''member''"
  let ?spam = "demoBody ''This is SPAM content''"
  have t: "truthy (Some ''sub'')" "truthy (Some ''ravi'')"
    by (simp_all add: truthy_def)
  have g1: "getMember restrictedStore (textOf (Some ''sub'')) = Some ?subR"
    by code_simp
  have g2: "getMember keywordStore (textOf (Some ''ravi'')) = Some ?ravi"
    by code_simp
  have g3: "getMember keywordStore (textOf (Some ''sub'')) = Some ?sub"
    by code_simp
  have k1: "keywordsNormalised restrictedStore"
    by code_simp
  have k2: "keywordsNormalised keywordStore"
    by code_simp
  have r1: "isRestricted demoEnv ?subR"
    by code_simp
  have r2: "\<not> isRestricted demoEnv ?ravi" "\<not> isRestricted demoEnv ?sub"
    by code_simp+
  have c2: "\<not> chatDisabled (fst (getChatSettings keywordStore))"
    by code_simp
  have a2: "\<not> isAdminRole (m_role ?ravi)" "isAdminRole (m_role ?sub)"
    by code_simp+
  have "toLowerCase ''This is SPAM content'' = ''this is '' @ toLowerCase ''spam'' @ '' content''"
    by code_simp
  then have ci: "spec_containsCI ''This is SPAM content'' ''spam''"
    unfolding spec_containsCI_def by blast
  have "demoSpam \<in> set (blockedKeywords keywordStore)"
    by (simp add: keywordStore_def)
  moreover have "spec_containsCI (textOf (b_content ?spam)) (k_keyword demoSpam)"
    using ci by (simp add: demoBody_def textOf_def demoSpam_def)
  ultimately have hit: "\<exists>k \<in> set (blockedKeywords keywordStore).
      spec_containsCI (textOf (b_content ?spam)) (k_keyword k)"
    by blast
  from postMessage_policy_checks [OF t(1) g1 k1, of demoEnv "demoBody ''hello''"] r1
  have w1: "fst (postMessage demoEnv (Some ''sub'') (demoBody ''hello'') restrictedStore)
     = Fail 403 ''You are restricted from sending messages''"
    by blast
  note B = postMessage_policy_checks [OF t(2) g2 k2, of demoEnv ?spam]
  from B r2(1) c2 a2(1) hit
  have w2: "fst (postMessage demoEnv (Some ''ravi'') ?spam keywordStore)
       = Fail 403 ''Your message contains a restricted word and cannot be sent.''"
    by blast
  with B have w3: "messages (fst (snd (postMessage demoEnv (Some ''ravi'') ?spam keywordStore)))
        = messages keywordStore
      \<and> snd (snd (postMessage demoEnv (Some ''ravi'') ?spam keywordStore)) = []"
    by blast
  from postMessage_policy_checks [OF t(1) g3 k2, of demoEnv ?spam] r2(2) a2(2)
  have w4: "\<exists>msg. fst (postMessage demoEnv (Some ''sub'') ?spam keywordStore) = MessageJson msg"
    by blast
  from w1 ci w2 w3 w4 show ?thesis
    by blast
qed

section \<open>Reading the message list (claim C2)\<close>

lemma listMessages_filter:
  assumes "truthy session"
  shows "fst (listMessages e session s)
           = MessagesJson (filter (spec_visible e (fst (getChatSettings s)) (getMember s (textOf session)))
                             (getMessages s))"
  using assms
  by (auto simp: listMessages_def spec_visible_def Let_def not_less
      split: prod.splits option.splits intro!: filter_cong)

lemma sorted_visible:
  "sorted (map msg_createdAt (filter P (getMessages s)))"
  by (simp add: getMessages_def sorted_filter)

text \<open>
  C2, as stated, fails for a stored window of 0 hours: the route tests
  \<open>settings.disappearAfterHours\<close> for truthiness, so 0 switches the window off, and a
  message that is not pinned and older than \<open>now - 0\<close> is returned.
\<close>

theorem listMessages_zero_window_counterexample:
  "disappearAfterHours (fst (getChatSettings zeroWindowStore)) = Some 0
   \<and> \<not> msg_isDeleted (demoText ''m2'' ''ravi'' ''Thanks'' 2000)
   \<and> \<not> msg_isPinned (demoText ''m2'' ''ravi'' ''Thanks'' 2000)
   \<and> msg_createdAt (demoText ''m2'' ''ravi'' ''Thanks'' 2000) < now demoEnv - 0 * 60 * 60 * 1000
   \<and> fst (listMessages demoEnv (Some ''priya'') zeroWindowStore)
       = MessagesJson [demoText ''m1'' ''admin'' ''Welcome'' 1000,
                       demoText ''m2'' ''ravi'' ''Thanks'' 2000]"
  by code_simp

text \<open>
  C2, amended. For every authenticated viewer the message-list read returns exactly the
  messages that pass the visibility rules, in the order of \<open>getMessages\<close>, which is
  ascending in creation time: soft-deleted messages never; with a non-zero window of \<open>w\<close>
  hours stored, pinned messages and the messages not older than \<open>now - w\<close>; for a viewer
  who is not admin or sub-admin and has a first-login timestamp, pinned messages and the
  messages not created before it. Admin and sub-admin viewers are exempt from the
  first-login rule only.
\<close>

theorem listMessages_visible_messages:
  assumes "truthy session"
  shows "fst (listMessages e session s)
           = MessagesJson (filter (spec_visible e (fst (getChatSettings s))
                                     (getMember s (textOf session)))
                             (getMessages s))
         \<and> sorted (map msg_createdAt
              (filter (spec_visible e (fst (getChatSettings s)) (getMember s (textOf session)))
                 (getMessages s)))
         \<and> set (getMessages s) = set (messages s)"
  using listMessages_filter [OF assms] sorted_visible
  by (simp add: getMessages_def)

text \<open>A window of 24 hours: the pinned message of long ago stays, the old unpinned one
  goes; the member who first logged in after \<open>m3\<close> does not see it, the admin with the
  same first-login timestamp does; the deleted \<open>m4\<close> is shown to neither.\<close>

theorem listMessages_visible_messages_witness:
  "truthy (Some ''priya'')
   \<and> fst (listMessages demoEnv (Some ''priya'') windowStore)
       = MessagesJson (filter (spec_visible demoEnv (fst (getChatSettings windowStore))
                                 (getMember windowStore (textOf (Some ''priya''))))
                         (getMessages windowStore))
   \<and> map msg_id (filter (spec_visible demoEnv (fst (getChatSettings windowStore))
                           (getMember windowStore (textOf (Some ''priya''))))
                   (getMessages windowStore)) = [''m1'', ''m5'']
   \<and> map msg_id (filter (spec_visible demoEnv (fst (getChatSettings windowStore))
                           (getMember windowStore (textOf (Some ''admin''))))
                   (getMessages windowStore)) = [''m1'', ''m3'', ''m5'']"
proof -
  have h: "truthy (Some ''priya'')"
    by (simp add: truthy_def)
  have priya: "map msg_id (filter (spec_visible demoEnv (fst (getChatSettings windowStore))
                           (getMember windowStore (textOf (Some ''priya''))))
                   (getMessages windowStore)) = [''m1'', ''m5'']"
    by code_simp
  have admin: "map msg_id (filter (spec_visible demoEnv (fst (getChatSettings windowStore))
                           (getMember windowStore (textOf (Some ''admin''))))
                   (getMessages windowStore)) = [''m1'', ''m3'', ''m5'']"
    by code_simp
  from listMessages_visible_messages [OF h, of demoEnv windowStore] h priya admin
  show ?thesis
    by blast
qed

section \<open>The notification fan-out (claim C3)\<close>

lemma mentionRecipients_fresh:
  "set (mentionRecipients sid ms toks ids) \<inter> set ids = {}
   \<and> sid \<notin> set (mentionRecipients sid ms toks ids)
   \<and> distinct (mentionRecipients sid ms toks ids)"
proof (induction toks arbitrary: ids)
  case Nil
  show ?case by simp
next
  case (Cons t toks)
  show ?case
  proof (cases "mentioned ms t")
    case None
    with Cons [of ids] show ?thesis by simp
  next
    case (Some m)
    show ?thesis
    proof (cases "m_id m \<noteq> sid \<and> m_id m \<notin> set ids")
      case False
      with Some Cons [of ids] show ?thesis by auto
    next
      case True
      with Some Cons [of "ids @ [m_id m]"] show ?thesis by auto
    qed
  qed
qed

lemma mentionRecipients_sound:
  "x \<in> set (mentionRecipients sid ms toks ids) \<Longrightarrow>
     \<exists>t \<in> set toks. map_option m_id (mentioned ms t) = Some x"
proof (induction toks arbitrary: ids)
  case Nil
  then show ?case by simp
next
  case (Cons t toks)
  then show ?case
    by (cases "mentioned ms t") (auto split: if_splits)
qed

lemma mentionRecipients_complete:
  "t \<in> set toks \<Longrightarrow> mentioned ms t = Some m \<Longrightarrow> m_id m \<noteq> sid \<Longrightarrow>
     m_id m \<in> set (mentionRecipients sid ms toks ids) \<union> set ids"
proof (induction toks arbitrary: ids)
  case Nil
  then show ?case by simp
next
  case (Cons u toks)
  show ?case
  proof (cases "u = t")
    case True
    with Cons.prems show ?thesis by auto
  next
    case False
    with Cons.prems have t: "t \<in> set toks" by simp
    show ?thesis
    proof (cases "mentioned ms u")
      case None
      with Cons.IH [OF t Cons.prems(2,3), of ids] show ?thesis by simp
    next
      case (Some m')
      show ?thesis
      proof (cases "m_id m' \<noteq> sid \<and> m_id m' \<notin> set ids")
        case False
        with Some Cons.IH [OF t Cons.prems(2,3), of ids] show ?thesis by auto
      next
        case True
        with Some Cons.IH [OF t Cons.prems(2,3), of "ids @ [m_id m']"] show ?thesis by auto
      qed
    qed
  qed
qed

lemma find_snoc:
  "find P (xs @ [x]) = (case find P xs of None \<Rightarrow> (if P x then Some x else None) | Some y \<Rightarrow> Some y)"
  by (induction xs) auto

lemma replyTarget_messages:
  "messages s' = messages s \<Longrightarrow> spec_replyTarget s' sid rid = spec_replyTarget s sid rid"
  by (simp add: spec_replyTarget_def getMessage_def)

lemma replyTarget_after_create:
  assumes "messages s2 = messages s @ [msg]" and "msg_senderId msg = sid"
  shows "spec_replyTarget s2 sid rid = spec_replyTarget s sid rid"
  using assms
  by (auto simp: spec_replyTarget_def getMessage_def find_snoc split: option.splits)

lemma notifyReply_result:
  assumes "notifyReply e sid msg rid s = (ids, s', evs)"
  shows "\<exists>ns. notifications s' = notifications s @ ns \<and> map n_recipientId ns = ids
           \<and> ids = (case spec_replyTarget s sid rid of None \<Rightarrow> [] | Some r \<Rightarrow> [r])
           \<and> (\<forall>n \<in> set ns. n_type n = ''reply'' \<and> n_senderId n = sid
                 \<and> n_messageId n = msg_id msg)"
proof (cases "spec_replyTarget s sid rid")
  case None
  with assms have "ids = []" "s' = s"
    by (auto simp: notifyReply_def spec_replyTarget_def split: if_splits option.splits)
  with None show ?thesis by simp
next
  case (Some r)
  then obtain rm where rm: "truthy rid" "getMessage s (textOf rid) = Some rm"
      "msg_senderId rm \<noteq> sid" "r = msg_senderId rm"
    by (auto simp: spec_replyTarget_def split: if_splits option.splits)
  let ?n = "\<lparr> n_id = gen_random_uuid e (draws s), n_recipientId = r, n_senderId = sid,
               n_messageId = msg_id msg, n_type = ''reply'', n_isRead = False,
               n_createdAt = now e \<rparr>"
  from assms rm have "ids = [r]" "notifications s' = notifications s @ [?n]"
    by (auto simp: notifyReply_def createNotification_def Let_def)
  with Some show ?thesis by simp
qed

lemma notifyMentions_result:
  assumes "notifyMentions e sid msg ms toks ids s = (s', evs)"
  shows "\<exists>ns. notifications s' = notifications s @ ns
           \<and> map n_recipientId ns = mentionRecipients sid ms toks ids
           \<and> (\<forall>n \<in> set ns. n_type n = ''mention'' \<and> n_senderId n = sid
                 \<and> n_messageId n = msg_id msg)"
  using assms
proof (induction toks arbitrary: ids s s' evs)
  case Nil
  then show ?case by simp
next
  case (Cons t toks)
  show ?case
  proof (cases "mentioned ms t")
    case None
    with Cons.prems have "notifyMentions e sid msg ms toks ids s = (s', evs)"
      by (simp add: mentioned_def)
    from Cons.IH [OF this] None show ?thesis by simp
  next
    case (Some m)
    show ?thesis
    proof (cases "m_id m \<noteq> sid \<and> m_id m \<notin> set ids")
      case False
      with Some Cons.prems have "notifyMentions e sid msg ms toks ids s = (s', evs)"
        by (auto simp: mentioned_def)
      from Cons.IH [OF this] Some False show ?thesis by auto
    next
      case True
      let ?n = "\<lparr> n_id = gen_random_uuid e (draws s), n_recipientId = m_id m, n_senderId = sid,
                   n_messageId = msg_id msg, n_type = ''mention'', n_isRead = False,
                   n_createdAt = now e \<rparr>"
      let ?s1 = "s\<lparr>notifications := notifications s @ [?n], draws := Suc (draws s)\<rparr>"
      have c: "createNotification e
          \<lparr> in_recipientId = m_id m, in_senderId = sid, in_messageId = msg_id msg,
            in_type = ''mention'' \<rparr> s = (?n, ?s1)"
        by (simp add: createNotification_def Let_def)
      obtain s2 evs2 where r: "notifyMentions e sid msg ms toks (ids @ [m_id m]) ?s1 = (s2, evs2)"
        by (cases "notifyMentions e sid msg ms toks (ids @ [m_id m]) ?s1")
      from Cons.prems Some True c r have s': "s' = s2"
        by (simp add: mentioned_def)
      from Cons.IH [OF r] obtain ns where ns: "notifications s2 = notifications ?s1 @ ns"
          "map n_recipientId ns = mentionRecipients sid ms toks (ids @ [m_id m])"
          "\<forall>n \<in> set ns. n_type n = ''mention'' \<and> n_senderId n = sid \<and> n_messageId n = msg_id msg"
        by blast
      have "notifications s' = notifications s @ (?n # ns)"
        using ns(1) s' by simp
      moreover have "map n_recipientId (?n # ns) = mentionRecipients sid ms (t # toks) ids"
        using ns(2) Some True by simp
      moreover have "\<forall>n \<in> set (?n # ns). n_type n = ''mention'' \<and> n_senderId n = sid
                       \<and> n_messageId n = msg_id msg"
        using ns(3) by simp
      ultimately show ?thesis by blast
    qed
  qed
qed

lemma persistAndNotify_notifications:
  assumes "persistAndNotify e sid body s1 = (r, s', evs)"
  shows "\<exists>msg ns1 ns2. r = MessageJson msg
           \<and> notifications s' = notifications s1 @ ns1 @ ns2
           \<and> map n_recipientId ns1
               = (case spec_replyTarget s1 sid (b_replyToId body) of None \<Rightarrow> [] | Some r \<Rightarrow> [r])
           \<and> (\<forall>n \<in> set ns1. n_type n = ''reply'' \<and> n_senderId n = sid
                 \<and> n_messageId n = msg_id msg)
           \<and> map n_recipientId ns2
               = mentionRecipients sid (members s1) (mentionTokens (textOf (b_content body)))
                   (map n_recipientId ns1)
           \<and> (\<forall>n \<in> set ns2. n_type n = ''mention'' \<and> n_senderId n = sid
                 \<and> n_messageId n = msg_id msg)"
proof -
  let ?d = "\<lparr> im_senderId = sid, im_content = b_content body,
               im_type = (if truthy (b_type body) then textOf (b_type body) else ''text''),
               im_fileUrl = orNull (b_fileUrl body),
               im_fileName = orNull (b_fileName body),
               im_replyToId = orNull (b_replyToId body),
               im_mentions = (if mentionTokens (textOf (b_content body)) \<noteq> []
                              then Some (mentionTokens (textOf (b_content body))) else None) \<rparr>"
  obtain msg s2 where c: "createMessage e ?d s1 = (msg, s2)"
    by (cases "createMessage e ?d s1")
  obtain ids s3 evs1 where n: "notifyReply e sid msg (b_replyToId body) s2 = (ids, s3, evs1)"
    by (cases "notifyReply e sid msg (b_replyToId body) s2") auto
  obtain s4 evs2 where m: "notifyMentions e sid msg (getAllMembers s3)
      (mentionTokens (textOf (b_content body))) ids s3 = (s4, evs2)"
    by (cases "notifyMentions e sid msg (getAllMembers s3)
      (mentionTokens (textOf (b_content body))) ids s3")
  from assms c n m have res: "r = MessageJson msg" "s' = s4"
    by (simp_all add: persistAndNotify_def Let_def)
  from c have s2: "messages s2 = messages s1 @ [msg]" "members s2 = members s1"
      "notifications s2 = notifications s1" "msg_senderId msg = sid"
    by (auto simp: createMessage_def Let_def)
  from notifyReply_result [OF n] obtain ns1 where ns1:
      "notifications s3 = notifications s2 @ ns1" "map n_recipientId ns1 = ids"
      "ids = (case spec_replyTarget s2 sid (b_replyToId body) of None \<Rightarrow> [] | Some r \<Rightarrow> [r])"
      "\<forall>n \<in> set ns1. n_type n = ''reply'' \<and> n_senderId n = sid \<and> n_messageId n = msg_id msg"
    by blast
  from notifyMentions_result [OF m] obtain ns2 where ns2:
      "notifications s4 = notifications s3 @ ns2"
      "map n_recipientId ns2 = mentionRecipients sid (getAllMembers s3)
          (mentionTokens (textOf (b_content body))) ids"
      "\<forall>n \<in> set ns2. n_type n = ''mention'' \<and> n_senderId n = sid \<and> n_messageId n = msg_id msg"
    by blast
  have mem: "getAllMembers s3 = members s1"
    using notifyReply_tables(2) [OF n] s2(2) by (simp add: getAllMembers_def)
  have tgt: "spec_replyTarget s2 sid (b_replyToId body) = spec_replyTarget s1 sid (b_replyToId body)"
    using s2(1,4) by (rule replyTarget_after_create)
  have "notifications s' = notifications s1 @ ns1 @ ns2"
    using res(2) ns2(1) ns1(1) s2(3) by simp
  moreover have "map n_recipientId ns1
      = (case spec_replyTarget s1 sid (b_replyToId body) of None \<Rightarrow> [] | Some r \<Rightarrow> [r])"
    using ns1(2,3) tgt by simp
  moreover have "map n_recipientId ns2
      = mentionRecipients sid (members s1) (mentionTokens (textOf (b_content body)))
          (map n_recipientId ns1)"
    using ns2(2) mem ns1(2) by simp
  ultimately show ?thesis
    using res(1) ns1(4) ns2(3) by blast
qed

lemma replyTarget_not_sender: "spec_replyTarget s sid rid = Some r \<Longrightarrow> r \<noteq> sid"
  by (auto simp: spec_replyTarget_def split: if_splits option.splits)

text \<open>
  C3, as stated, fails where two members carry the same display name: a mention token is
  resolved with \<open>find\<close>, which gives the first member of that name only. \<open>ravi\<close> mentions
  \<open>Bob\<close>; of the two members named Bob, neither the sender nor notified before, only the
  first receives a notification.
\<close>

theorem postMessage_same_name_counterexample:
  "mentionTokens ''hello @Bob'' = [''Bob'']
   \<and> map (\<lambda>m. (m_id m, m_name m)) (members bobsStore)
       = [(''admin'', ''Admin''), (''bob1'', ''Bob''), (''bob2'', ''Bob''),
          (''ravi'', ''Ravi Sharma'')]
   \<and> map (\<lambda>n. (n_recipientId n, n_type n))
         (newNotifications bobsStore
            (fst (snd (postMessage demoEnv (Some ''ravi'') (demoBody ''hello @Bob'') bobsStore))))
       = [(''bob1'', ''mention'')]"
  by code_simp

text \<open>
  C3, amended. For every persisted text-message send, the notifications it adds have
  pairwise distinct recipients, none of them the sender, and each carries the sender and
  the new message's id. The sender of the reply-target message, when that message exists
  and was not sent by the sending member, receives a notification, typed \<open>reply\<close>, and no
  other notification is typed \<open>reply\<close>. Each mention token resolves to the first member of
  the roster whose display name equals it up to case; that member, when not the sender,
  is among the recipients, with a notification typed \<open>mention\<close> unless the member is the
  reply target; every \<open>mention\<close> goes to a member some token resolves to. So a member who
  is both the reply target and mentioned gets exactly one notification, typed \<open>reply\<close>,
  and self-mentions and self-replies produce none.
\<close>

theorem postMessage_notification_fanout:
  fixes e session body s msg
  defines "s' \<equiv> fst (snd (postMessage e session body s))"
    and "sid \<equiv> textOf session"
    and "ns \<equiv> newNotifications s (fst (snd (postMessage e session body s)))"
    and "target \<equiv> spec_replyTarget s (textOf session) (b_replyToId body)"
    and "tokens \<equiv> mentionTokens (textOf (b_content body))"
  assumes accepted: "fst (postMessage e session body s) = MessageJson msg"
  shows "notifications s' = notifications s @ ns
     \<and> distinct (map n_recipientId ns)
     \<and> sid \<notin> n_recipientId ` set ns
     \<and> (\<forall>n \<in> set ns. n_senderId n = sid \<and> n_messageId n = msg_id msg
           \<and> (n_type n = ''reply'' \<or> n_type n = ''mention''))
     \<and> (\<forall>n \<in> set ns. (n_type n = ''reply'') = (target = Some (n_recipientId n)))
     \<and> (\<forall>r. target = Some r \<longrightarrow> r \<in> n_recipientId ` set ns)
     \<and> (\<forall>n \<in> set ns. n_type n = ''mention'' \<longrightarrow>
           (\<exists>t \<in> set tokens. map_option m_id (mentioned (members s) t) = Some (n_recipientId n)))
     \<and> (\<forall>t \<in> set tokens. \<forall>m. mentioned (members s) t = Some m \<and> m_id m \<noteq> sid \<longrightarrow>
           m_id m \<in> n_recipientId ` set ns)"
proof -
  let ?s1 = "snd (getChatSettings s)"
  have "postMessage e session body s = (MessageJson msg, s', snd (snd (postMessage e session body s)))"
    using accepted by (simp add: s'_def prod_eq_iff)
  from postMessage_accepted [OF this]
  have p: "persistAndNotify e sid body ?s1 = (MessageJson msg, s', snd (snd (postMessage e session body s)))"
    by (simp add: sid_def)
  from persistAndNotify_notifications [OF p] obtain ns1 ns2 where
    all: "notifications s' = notifications ?s1 @ ns1 @ ns2"
    and ids: "map n_recipientId ns1
               = (case spec_replyTarget ?s1 sid (b_replyToId body) of None \<Rightarrow> [] | Some r \<Rightarrow> [r])"
    and rep: "\<forall>n \<in> set ns1. n_type n = ''reply'' \<and> n_senderId n = sid \<and> n_messageId n = msg_id msg"
    and recs: "map n_recipientId ns2
               = mentionRecipients sid (members ?s1) tokens (map n_recipientId ns1)"
    and men: "\<forall>n \<in> set ns2. n_type n = ''mention'' \<and> n_senderId n = sid \<and> n_messageId n = msg_id msg"
    by (auto simp: tokens_def)
  have tgt: "spec_replyTarget ?s1 sid (b_replyToId body) = target"
    unfolding target_def sid_def by (rule replyTarget_messages) (simp add: getChatSettings_tables)
  have ids': "map n_recipientId ns1 = (case target of None \<Rightarrow> [] | Some r \<Rightarrow> [r])"
    using ids tgt by simp
  let ?rec = "mentionRecipients sid (members s) tokens (map n_recipientId ns1)"
  have recs': "map n_recipientId ns2 = ?rec"
    using recs by (simp add: getChatSettings_tables)
  have c1: "notifications s' = notifications s @ ns1 @ ns2"
    using all by (simp add: getChatSettings_tables)
  then have ns: "ns = ns1 @ ns2"
    by (simp add: ns_def newNotifications_def s'_def)
  note fresh = mentionRecipients_fresh [of sid "members s" tokens "map n_recipientId ns1"]
  have tgt_ne: "\<And>r. target = Some r \<Longrightarrow> r \<noteq> sid"
    unfolding target_def sid_def by (rule replyTarget_not_sender)
  have in1: "\<And>n. n \<in> set ns1 \<Longrightarrow> target = Some (n_recipientId n)"
  proof -
    fix n assume "n \<in> set ns1"
    then have "n_recipientId n \<in> set (map n_recipientId ns1)" by simp
    then show "target = Some (n_recipientId n)"
      unfolding ids' by (cases target) auto
  qed
  have in2: "\<And>n. n \<in> set ns2 \<Longrightarrow> n_recipientId n \<in> set ?rec"
  proof -
    fix n assume "n \<in> set ns2"
    then have "n_recipientId n \<in> set (map n_recipientId ns2)" by simp
    then show "n_recipientId n \<in> set ?rec" by (simp only: recs')
  qed
  have out2: "\<And>n. n \<in> set ns2 \<Longrightarrow> target \<noteq> Some (n_recipientId n)"
  proof
    fix n assume n: "n \<in> set ns2" and t: "target = Some (n_recipientId n)"
    from t ids' have "n_recipientId n \<in> set (map n_recipientId ns1)" by simp
    with in2 [OF n] fresh show False by blast
  qed
  have c2: "distinct (map n_recipientId ns)"
  proof -
    have "distinct (map n_recipientId ns1)"
      unfolding ids' by (cases target) auto
    moreover have "distinct (map n_recipientId ns2)"
      using fresh by (simp only: recs')
    moreover have "set (map n_recipientId ns1) \<inter> set (map n_recipientId ns2) = {}"
      using fresh unfolding recs' by blast
    ultimately show ?thesis
      unfolding ns by simp
  qed
  have c3: "sid \<notin> n_recipientId ` set ns"
  proof
    assume "sid \<in> n_recipientId ` set ns"
    then obtain n where n: "n \<in> set ns" "n_recipientId n = sid" by auto
    from n(1) ns consider "n \<in> set ns1" | "n \<in> set ns2" by auto
    then show False
    proof cases
      case 1
      from in1 [OF 1] tgt_ne n(2) show False by auto
    next
      case 2
      from in2 [OF 2] fresh n(2) show False by auto
    qed
  qed
  have c4: "\<forall>n \<in> set ns. n_senderId n = sid \<and> n_messageId n = msg_id msg
           \<and> (n_type n = ''reply'' \<or> n_type n = ''mention'')"
    using rep men unfolding ns by auto
  have c5: "\<forall>n \<in> set ns. (n_type n = ''reply'') = (target = Some (n_recipientId n))"
  proof
    fix n assume "n \<in> set ns"
    with ns consider "n \<in> set ns1" | "n \<in> set ns2" by auto
    then show "(n_type n = ''reply'') = (target = Some (n_recipientId n))"
    proof cases
      case 1
      with rep in1 [OF 1] show ?thesis by simp
    next
      case 2
      with men out2 [OF 2] show ?thesis by simp
    qed
  qed
  have c6: "\<forall>r. target = Some r \<longrightarrow> r \<in> n_recipientId ` set ns"
  proof (intro allI impI)
    fix r assume "target = Some r"
    with ids' have "r \<in> set (map n_recipientId ns1)" by simp
    then show "r \<in> n_recipientId ` set ns" unfolding ns by auto
  qed
  have c7: "\<forall>n \<in> set ns. n_type n = ''mention'' \<longrightarrow>
           (\<exists>t \<in> set tokens. map_option m_id (mentioned (members s) t) = Some (n_recipientId n))"
  proof (intro ballI impI)
    fix n assume n: "n \<in> set ns" and ty: "n_type n = ''mention''"
    from n ns consider "n \<in> set ns1" | "n \<in> set ns2" by auto
    then show "\<exists>t \<in> set tokens. map_option m_id (mentioned (members s) t) = Some (n_recipientId n)"
    proof cases
      case 1
      with rep ty show ?thesis by auto
    next
      case 2
      from mentionRecipients_sound [OF in2 [OF 2]] show ?thesis .
    qed
  qed
  have c8: "\<forall>t \<in> set tokens. \<forall>m. mentioned (members s) t = Some m \<and> m_id m \<noteq> sid \<longrightarrow>
           m_id m \<in> n_recipientId ` set ns"
  proof (intro ballI allI impI)
    fix t m assume t: "t \<in> set tokens" and m: "mentioned (members s) t = Some m \<and> m_id m \<noteq> sid"
    from mentionRecipients_complete [OF t, of "members s" m sid "map n_recipientId ns1"] m
    have "m_id m \<in> set ?rec \<union> set (map n_recipientId ns1)" by simp
    then have "m_id m \<in> set (map n_recipientId ns2) \<union> set (map n_recipientId ns1)"
      by (simp only: recs')
    then show "m_id m \<in> n_recipientId ` set ns"
      unfolding ns by auto
  qed
  from c1 ns have c1': "notifications s' = notifications s @ ns" by simp
  from c1' c2 c3 c4 c5 c6 c7 c8 show ?thesis
    by blast
qed

text \<open>\<open>priya\<close> replies to the message of \<open>ravi\<close> and mentions the admin, herself and
  \<open>ravi\<close>: one \<open>reply\<close> for \<open>ravi\<close>, one \<open>mention\<close> for the admin.\<close>

theorem postMessage_notification_fanout_witness:
  "fst (postMessage demoEnv (Some ''priya'') demoReply demoStore) = MessageJson demoReplyMessage
   \<and> spec_replyTarget demoStore ''priya'' (b_replyToId demoReply) = Some ''ravi''
   \<and> mentionTokens (textOf (b_content demoReply)) = [''Admin'', ''Priya Patel'', ''Ravi Sharma'']
   \<and> map (\<lambda>n. (n_recipientId n, n_type n))
         (newNotifications demoStore
            (fst (snd (postMessage demoEnv (Some ''priya'') demoReply demoStore))))
       = [(''ravi'', ''reply''), (''admin'', ''mention'')]
   \<and> distinct (map n_recipientId
         (newNotifications demoStore
            (fst (snd (postMessage demoEnv (Some ''priya'') demoReply demoStore)))))
   \<and> ''priya'' \<notin> n_recipientId `
         set (newNotifications demoStore
                (fst (snd (postMessage demoEnv (Some ''priya'') demoReply demoStore))))
   \<and> ''ravi'' \<in> n_recipientId `
         set (newNotifications demoStore
                (fst (snd (postMessage demoEnv (Some ''priya'') demoReply demoStore))))"
proof -
  let ?ns = "newNotifications demoStore
               (fst (snd (postMessage demoEnv (Some ''priya'') demoReply demoStore)))"
  have acc: "fst (postMessage demoEnv (Some ''priya'') demoReply demoStore)
               = MessageJson demoReplyMessage"
    by code_simp
  have tg: "spec_replyTarget demoStore (textOf (Some ''priya'')) (b_replyToId demoReply)
              = Some ''ravi''"
    by code_simp
  have tk: "mentionTokens (textOf (b_content demoReply))
              = [''Admin'', ''Priya Patel'', ''Ravi Sharma'']"
    by code_simp
  have ev: "map (\<lambda>n. (n_recipientId n, n_type n)) ?ns
              = [(''ravi'', ''reply''), (''admin'', ''mention'')]"
    by code_simp
  note A = postMessage_notification_fanout [OF acc]
  from A have d: "distinct (map n_recipientId ?ns)"
    by blast
  from A have "textOf (Some ''priya'') \<notin> n_recipientId ` set ?ns"
    by blast
  then have p: "''priya'' \<notin> n_recipientId ` set ?ns"
    by (simp add: textOf_def)
  from A tg have r: "''ravi'' \<in> n_recipientId ` set ?ns"
    by blast
  from tg have tg': "spec_replyTarget demoStore ''priya'' (b_replyToId demoReply) = Some ''ravi''"
    by (simp add: textOf_def)
  from acc tg' tk ev d p r show ?thesis
    by blast
qed

section \<open>Reactions (claim C4)\<close>

text \<open>A call that is not interrupted runs its three steps in a row.\<close>

lemma toggleReaction_uninterrupted:
  "toggleReaction e d s =
     (case reactionsOf d s of
        [] \<Rightarrow> insertReaction e d s
      | x # _ \<Rightarrow>
          if r_emoji x = ir_emoji d then deleteReaction (r_id x) s
          else insertReaction e d (deleteReaction (r_id x) s))"
  by (simp add: toggleReaction_def toggleStep_def selectReactions_def reactionsOf_def
      split: list.splits)


lemma toggle_absent:
  assumes "reactionsOf d s = []"
  shows "reactionsOf d (toggleReaction e d s)
           = [\<lparr> r_id = gen_random_uuid e (draws s), r_messageId = ir_messageId d,
                r_memberId = ir_memberId d, r_emoji = ir_emoji d \<rparr>]"
  using assms by (simp add: toggleReaction_uninterrupted insertReaction_def deleteReaction_def reactionsOf_def)

lemma filter_pair_id:
  assumes "filter P rs = [x]"
  shows "filter P (filter (\<lambda>r. r_id r \<noteq> r_id x) rs) = []"
proof -
  have "set (filter P rs) = {x}"
    using assms by simp
  then have "\<forall>r \<in> set rs. P r \<longrightarrow> r = x"
    by auto
  then show ?thesis
    by (auto simp: filter_empty_conv)
qed

lemma toggle_same:
  assumes "reactionsOf d s = [x]" "r_emoji x = ir_emoji d"
  shows "reactionsOf d (toggleReaction e d s) = []"
  using assms filter_pair_id [of "\<lambda>r. r_messageId r = ir_messageId d \<and> r_memberId r = ir_memberId d" "reactions s" x]
  by (simp add: toggleReaction_uninterrupted insertReaction_def deleteReaction_def reactionsOf_def)

lemma toggle_other:
  assumes "reactionsOf d s = [x]" "r_emoji x \<noteq> ir_emoji d"
  shows "reactionsOf d (toggleReaction e d s)
           = [\<lparr> r_id = gen_random_uuid e (draws s), r_messageId = ir_messageId d,
                r_memberId = ir_memberId d, r_emoji = ir_emoji d \<rparr>]"
    and "x \<notin> set (reactions (toggleReaction e d s))"
  using assms filter_pair_id [of "\<lambda>r. r_messageId r = ir_messageId d \<and> r_memberId r = ir_memberId d" "reactions s" x]
  by (auto simp add: toggleReaction_uninterrupted insertReaction_def deleteReaction_def reactionsOf_def)

lemma toggle_parity:
  assumes "reactionsOf d s = []"
  shows "map r_emoji (reactionsOf d ((toggleReaction e d ^^ n) s)) = (if odd n then [ir_emoji d] else [])"
proof (induction n)
  case 0
  then show ?case using assms by simp
next
  case (Suc n)
  show ?case
  proof (cases "odd n")
    case True
    with Suc obtain x where x: "reactionsOf d ((toggleReaction e d ^^ n) s) = [x]" "r_emoji x = ir_emoji d"
      by auto
    from toggle_same [OF x] True show ?thesis by simp
  next
    case False
    with Suc have "reactionsOf d ((toggleReaction e d ^^ n) s) = []" by simp
    from toggle_absent [OF this] False show ?thesis by simp
  qed
qed

lemma toggle_distinct:
  assumes "distinct (map reactionKey (reactions s))"
  shows "distinct (map reactionKey (reactions (toggleReaction e d s)))"
proof (cases "reactionsOf d s")
  case Nil
  then have "\<forall>r \<in> set (reactions s). reactionKey r \<noteq> (ir_messageId d, ir_memberId d)"
    by (auto simp: reactionsOf_def filter_empty_conv reactionKey_def)
  with assms Nil show ?thesis
    by (auto simp: toggleReaction_uninterrupted insertReaction_def deleteReaction_def reactionsOf_def reactionKey_def)
next
  case (Cons x xs)
  let ?rs = "filter (\<lambda>r. r_id r \<noteq> r_id x) (reactions s)"
  have d: "distinct (map reactionKey ?rs)"
    using assms by (simp add: distinct_map_filter)
  have xin: "x \<in> set (reactions s)" "reactionKey x = (ir_messageId d, ir_memberId d)"
    using Cons by (auto simp: reactionsOf_def reactionKey_def filter_eq_Cons_iff)
  have "\<forall>r \<in> set ?rs. reactionKey r \<noteq> (ir_messageId d, ir_memberId d)"
  proof
    fix r assume r: "r \<in> set ?rs"
    show "reactionKey r \<noteq> (ir_messageId d, ir_memberId d)"
    proof
      assume "reactionKey r = (ir_messageId d, ir_memberId d)"
      moreover have "inj_on reactionKey (set (reactions s))"
        using assms by (simp add: distinct_map)
      moreover have "r \<in> set (reactions s)"
        using r by simp
      ultimately have "r = x"
        using xin by (metis inj_onD)
      with r show False by simp
    qed
  qed
  with d Cons show ?thesis
    by (auto simp: toggleReaction_uninterrupted insertReaction_def deleteReaction_def reactionsOf_def reactionKey_def Let_def)
qed

lemma toggleAll_distinct:
  "distinct (map reactionKey (reactions s)) \<Longrightarrow> distinct (map reactionKey (reactions (toggleAll eds s)))"
  by (induction eds s rule: toggleAll.induct) (auto simp: toggle_distinct)

lemma toggle_alone:
  "runToggles e [0, 0, 0] [AtSelect d] s = ([Returned], toggleReaction e d s)"
  by (auto simp: toggleReaction_def toggleStep_def split: list.splits prod.splits)

text \<open>
  Calls that do not overlap. While the pairs of the table are distinct, a run of toggles
  made one after the other keeps them distinct. Starting from no reaction of the pair,
  \<open>n\<close> such toggles of the same emoji leave the reaction present exactly when \<open>n\<close> is
  odd. A toggle with another emoji than the stored one removes the stored row and leaves
  the new emoji as the only reaction of the pair.
\<close>

lemma toggles_in_sequence:
  "(distinct (map reactionKey (reactions s)) \<longrightarrow>
      distinct (map reactionKey (reactions (toggleAll eds s))))
   \<and> (reactionsOf d s' = [] \<longrightarrow>
        map r_emoji (reactionsOf d ((toggleReaction e d ^^ n) s'))
          = (if odd n then [ir_emoji d] else []))
   \<and> (reactionsOf d' t = [x] \<and> r_emoji x \<noteq> ir_emoji d' \<longrightarrow>
        map r_emoji (reactionsOf d' (toggleReaction e' d' t)) = [ir_emoji d']
        \<and> x \<notin> set (reactions (toggleReaction e' d' t)))"
  using toggleAll_distinct [of s eds] toggle_parity [where d = d and s = s' and e = e and n = n]
    toggle_other [of d' t x e']
  by simp

text \<open>
  C4. For every (message, member) pair at most one reaction exists at any time; toggling
  the same emoji again removes it, and toggling another emoji replaces the stored one.
  \<open>toggleReaction\<close> does not keep this when two calls overlap: its select, delete and
  insert are three separately awaited statements outside a transaction, and the reactions
  table has no unique index on the pair. Member \<open>ravi\<close> toggles the heart on message
  \<open>m1\<close> twice, from a table with no reaction, and the two calls are scheduled select,
  select, insert, insert: both find no row and both insert, so the table ends with two
  rows for the one pair. With a heart and a thumb in the same schedule the pair ends with
  both emojis: an addition, not a replacement. The same two heart toggles made one after
  the other leave no row.
\<close>

theorem interleaved_toggles_two_rows:
  "runToggles demoEnv [0, 1, 0, 1] [AtSelect demoHeart, AtSelect demoHeart] demoStore
     = ([Returned, Returned],
        demoStore\<lparr>reactions := [demoHeartRow ''uuid-'', demoHeartRow ''uuid-i''], draws := 2\<rparr>)
   \<and> reactionKey (demoHeartRow ''uuid-'') = reactionKey (demoHeartRow ''uuid-i'')
   \<and> demoHeartRow ''uuid-'' \<noteq> demoHeartRow ''uuid-i''
   \<and> runToggles demoEnv [0, 1, 0, 1] [AtSelect demoHeart, AtSelect demoThumb] demoStore
       = ([Returned, Returned],
          demoStore\<lparr>reactions := [demoHeartRow ''uuid-'',
                                   (demoHeartRow ''uuid-i'')\<lparr>r_emoji := ''thumb''\<rparr>],
                     draws := 2\<rparr>)
   \<and> runToggles demoEnv [0, 0, 1, 1, 1] [AtSelect demoHeart, AtSelect demoHeart] demoStore
       = ([Returned, Returned], demoStore\<lparr>draws := 1\<rparr>)"
  by code_simp

section \<open>The presence map (claim C5)\<close>










section \<open>File messages (claim C6)\<close>

text \<open>
  C6. A file-message send applies the same restriction and chat-disabled checks as a text
  send, plus the member-file-send-disabled check. The upload route has no chat-disabled
  check: with chat disabled, the text message of member \<open>ravi\<close> is refused with
  \<open>Chat is disabled\<close>, and his file is stored and broadcast.
\<close>

theorem uploadMessage_ignores_chatDisabled:
  "postMessage demoEnv (Some ''ravi'') (demoBody ''hello'') chatDisabledStore
     = (Fail 403 ''Chat is disabled'', chatDisabledStore, [])
   \<and> uploadMessage demoEnv (Some ''ravi'') (Some demoFile) None chatDisabledStore
       = (MessageJson demoImage,
          chatDisabledStore\<lparr>messages := messages chatDisabledStore @ [demoImage], draws := 1\<rparr>,
          [NewMessage demoImage])
   \<and> msg_senderId demoImage = ''ravi''"
  by code_simp

section \<open>Sub-admins and the primary admin (claim C7)\<close>

lemma requireAdmin_subAdmin:
  assumes "truthy session" and "getMember s (textOf session) = Some rm"
    and "m_role rm = ''sub-admin''"
  shows "requireAdmin s session = None"
  using assms by (simp add: requireAdmin_def isAdminRole_def)

lemma getMessage_distinct:
  assumes "distinct (map msg_id (messages s))" and "m \<in> set (messages s)"
  shows "getMessage s (msg_id m) = Some m"
proof -
  have "distinct (map msg_id xs) \<Longrightarrow> m \<in> set xs \<Longrightarrow> find (\<lambda>x. msg_id x = msg_id m) xs = Some m"
    for xs
    by (induction xs) auto
  with assms show ?thesis
    by (simp add: getMessage_def)
qed

lemma deleteMessage_tables:
  "map msg_id (messages (deleteMessage i s)) = map msg_id (messages s)"
  "members (deleteMessage i s) = members s"
  by (simp_all add: deleteMessage_def comp_def if_distrib cong: if_cong)

lemma deleteMessage_other:
  assumes "m \<in> set (messages s)" and "msg_id m \<noteq> i"
  shows "m \<in> set (messages (deleteMessage i s))"
  using assms by (force simp: deleteMessage_def)

lemma sentByPrimary_members:
  "members s' = members s \<Longrightarrow> sentByPrimary s' m = sentByPrimary s m"
  by (simp add: sentByPrimary_def getMember_def)

lemma protectedMessage_primary:
  assumes "m_role rm = ''sub-admin''" and "sentByPrimary s m"
  shows "protectedMessage s (Some rm) (Some m)"
  using assms by (auto simp: protectedMessage_def sentByPrimary_def split: option.splits)

lemma bulkDeleteLoop_protects:
  assumes "m_role rm = ''sub-admin''"
  shows "distinct (map msg_id (messages s)) \<Longrightarrow> m \<in> set (messages s) \<Longrightarrow> sentByPrimary s m \<Longrightarrow>
         m \<in> set (messages (fst (bulkDeleteLoop (Some rm) ids s d k)))
         \<and> members (fst (bulkDeleteLoop (Some rm) ids s d k)) = members s"
proof (induction ids arbitrary: s d k)
  case Nil
  then show ?case by simp
next
  case (Cons i ids)
  show ?case
  proof (cases "protectedMessage s (Some rm) (getMessage s i)")
    case True
    with Cons show ?thesis by simp
  next
    case False
    show ?thesis
    proof (cases "getMessage s i")
      case None
      with False Cons show ?thesis by simp
    next
      case (Some x)
      have ne: "msg_id m \<noteq> i"
      proof
        assume "msg_id m = i"
        with getMessage_distinct [OF Cons.prems(1,2)] have "getMessage s i = Some m" by simp
        with protectedMessage_primary [OF assms Cons.prems(3)] False show False by simp
      qed
      let ?s = "deleteMessage i s"
      have d: "distinct (map msg_id (messages ?s))"
        using Cons.prems(1) by (simp add: deleteMessage_tables(1))
      have i: "m \<in> set (messages ?s)"
        using Cons.prems(2) ne by (rule deleteMessage_other)
      have p: "sentByPrimary ?s m"
        using Cons.prems(3) sentByPrimary_members [OF deleteMessage_tables(2), of i s m] by simp
      have step: "bulkDeleteLoop (Some rm) (i # ids) s d k
                    = bulkDeleteLoop (Some rm) ids ?s (d + 1) k"
        using Some False by (simp add: Let_def)
      from Cons.IH [OF d i p, of "d + 1" k] show ?thesis
        unfolding step by (simp add: deleteMessage_tables(2))
    qed
  qed
qed

lemma getMessage_Some:
  "getMessage t i = Some x \<Longrightarrow> x \<in> set (messages t) \<and> msg_id x = i"
  by (auto simp: getMessage_def find_Some_iff in_set_conv_nth)

lemma getMessage_None: "getMessage t i = None \<longleftrightarrow> (\<forall>m \<in> set (messages t). msg_id m \<noteq> i)"
  by (auto simp: getMessage_def find_None_iff)

lemma getMessage_unique:
  assumes "distinct (map msg_id (messages t))" and "getMessage t i = Some x"
    and "m \<in> set (messages t)" and "msg_id m = i"
  shows "m = x"
  using getMessage_distinct [OF assms(1,3)] assms(2,4) by simp

lemma sentByPrimary_softDeleted:
  "sentByPrimary t (m\<lparr>msg_isDeleted := True, msg_isPinned := False\<rparr>) = sentByPrimary t m"
  by (simp add: sentByPrimary_def)

lemma sentByPrimary_deleteMessage:
  "sentByPrimary (deleteMessage i t) m = sentByPrimary t m"
  by (rule sentByPrimary_members) (rule deleteMessage_tables(2))

lemma ids_deleteMessage:
  "deletableId (deleteMessage i t) j = deletableId t j"
  "protectedId (deleteMessage i t) j = protectedId t j"
proof -
  let ?f = "\<lambda>m. if msg_id m = i then m\<lparr>msg_isDeleted := True, msg_isPinned := False\<rparr> else m"
  have msgs: "messages (deleteMessage i t) = map ?f (messages t)"
    by (simp add: deleteMessage_def)
  have same: "msg_id (?f m) = msg_id m"
    "sentByPrimary (deleteMessage i t) (?f m) = sentByPrimary t m" for m
    by (simp_all add: sentByPrimary_deleteMessage sentByPrimary_softDeleted)
  have "(\<exists>m \<in> set (map ?f (messages t)). P m) = (\<exists>m \<in> set (messages t). P (?f m))" for P
    unfolding set_map by (rule bex_simps)
  note ex = this
  show "deletableId (deleteMessage i t) j = deletableId t j"
    unfolding deletableId_def msgs ex same by (rule refl)
  show "protectedId (deleteMessage i t) j = protectedId t j"
    unfolding protectedId_def msgs ex same by (rule refl)
qed

lemma bulkDeleted_Nil: "bulkDeleted t [] = t"
  by (simp add: bulkDeleted_def)

lemma bulkDeleted_skip:
  assumes "\<And>m. m \<in> set (messages t) \<Longrightarrow> msg_id m = i \<Longrightarrow> sentByPrimary t m"
  shows "bulkDeleted t (i # rest) = bulkDeleted t rest"
proof -
  have "map (\<lambda>m. if msg_id m \<in> set (i # rest) \<and> \<not> sentByPrimary t m
                  then m\<lparr>msg_isDeleted := True, msg_isPinned := False\<rparr> else m) (messages t)
      = map (\<lambda>m. if msg_id m \<in> set rest \<and> \<not> sentByPrimary t m
                  then m\<lparr>msg_isDeleted := True, msg_isPinned := False\<rparr> else m) (messages t)"
    using assms by (intro map_cong) auto
  then show ?thesis
    by (simp add: bulkDeleted_def)
qed

lemma bulkDeleted_step:
  assumes "\<And>m. m \<in> set (messages t) \<Longrightarrow> msg_id m = i \<Longrightarrow> \<not> sentByPrimary t m"
  shows "bulkDeleted (deleteMessage i t) rest = bulkDeleted t (i # rest)"
proof -
  have "map ((\<lambda>m. if msg_id m \<in> set rest \<and> \<not> sentByPrimary (deleteMessage i t) m
                  then m\<lparr>msg_isDeleted := True, msg_isPinned := False\<rparr> else m)
             \<circ> (\<lambda>m. if msg_id m = i then m\<lparr>msg_isDeleted := True, msg_isPinned := False\<rparr>
                      else m)) (messages t)
      = map (\<lambda>m. if msg_id m \<in> set (i # rest) \<and> \<not> sentByPrimary t m
                  then m\<lparr>msg_isDeleted := True, msg_isPinned := False\<rparr> else m) (messages t)"
    using assms
    by (intro map_cong) (auto simp: sentByPrimary_deleteMessage sentByPrimary_softDeleted)
  then show ?thesis
    by (simp add: bulkDeleted_def deleteMessage_def)
qed

lemma bulkDeleteLoop_exact:
  assumes "m_role rm = ''sub-admin''"
  shows "distinct (map msg_id (messages t)) \<Longrightarrow>
         bulkDeleteLoop (Some rm) ids t d k
           = (bulkDeleted t ids, d + length (filter (deletableId t) ids),
              k + length (filter (protectedId t) ids))"
proof (induction ids arbitrary: t d k)
  case Nil
  show ?case by (simp add: bulkDeleted_Nil)
next
  case (Cons i ids)
  show ?case
  proof (cases "getMessage t i")
    case None
    then have no: "\<And>m. m \<in> set (messages t) \<Longrightarrow> msg_id m \<noteq> i"
      by (simp add: getMessage_None)
    then have "\<not> deletableId t i" "\<not> protectedId t i"
      by (auto simp: deletableId_def protectedId_def)
    moreover have "bulkDeleted t (i # ids) = bulkDeleted t ids"
      using no by (intro bulkDeleted_skip) auto
    moreover have "bulkDeleteLoop (Some rm) (i # ids) t d k = bulkDeleteLoop (Some rm) ids t d k"
      using None by (simp add: protectedMessage_def)
    ultimately show ?thesis
      using Cons.IH [OF Cons.prems, of d k] by simp
  next
    case (Some x)
    note x = getMessage_Some [OF Some]
    have uniq: "\<And>m. m \<in> set (messages t) \<Longrightarrow> msg_id m = i \<Longrightarrow> m = x"
      using getMessage_unique [OF Cons.prems Some] by blast
    show ?thesis
    proof (cases "sentByPrimary t x")
      case True
      then have p: "protectedMessage t (Some rm) (getMessage t i)"
        using Some protectedMessage_primary [OF assms True] by simp
      have "protectedId t i"
        using True x by (auto simp: protectedId_def)
      moreover have "\<not> deletableId t i"
        using True uniq by (auto simp: deletableId_def)
      moreover have "bulkDeleted t (i # ids) = bulkDeleted t ids"
        using True uniq by (intro bulkDeleted_skip) auto
      moreover have "bulkDeleteLoop (Some rm) (i # ids) t d k
                       = bulkDeleteLoop (Some rm) ids t d (k + 1)"
        using p by simp
      ultimately show ?thesis
        using Cons.IH [OF Cons.prems, of d "k + 1"] by simp
    next
      case False
      then have np: "\<not> protectedMessage t (Some rm) (getMessage t i)"
        using Some by (auto simp: protectedMessage_def sentByPrimary_def split: option.splits)
      have "deletableId t i"
        using False x by (auto simp: deletableId_def)
      moreover have "\<not> protectedId t i"
        using False uniq by (auto simp: protectedId_def)
      moreover have "bulkDeleted (deleteMessage i t) ids = bulkDeleted t (i # ids)"
        using False uniq by (intro bulkDeleted_step) auto
      moreover have "bulkDeleteLoop (Some rm) (i # ids) t d k
                       = bulkDeleteLoop (Some rm) ids (deleteMessage i t) (d + 1) k"
        using np Some by (simp add: Let_def)
      moreover have "distinct (map msg_id (messages (deleteMessage i t)))"
        using Cons.prems by (simp add: deleteMessage_tables(1))
      ultimately show ?thesis
        using Cons.IH [of "deleteMessage i t" "d + 1" k] by (simp add: ids_deleteMessage)
    qed
  qed
qed

text \<open>
  C7, as stated, fails: a sub-admin's bulk delete, pin and unrestrict are never denied on
  account of the primary admin. The sub-admin's request to delete \<open>m1\<close> (sent by the
  primary admin) and \<open>m2\<close> is answered with success, one deleted and one skipped, and the
  store has changed; the request for \<open>m1\<close> alone is answered with success as well, and an
  event is broadcast. The sub-admin's request to pin \<open>m1\<close> succeeds and pins it, and the
  request to lift the primary admin's restriction succeeds and clears it.
\<close>

theorem bulkDelete_by_subAdmin_counterexample:
  "map_option m_role (getMember demoStore ''sub'') = Some ''sub-admin''
   \<and> sentByPrimary demoStore (demoText ''m1'' ''admin'' ''Welcome'' 1000)
   \<and> bulkDeleteRoute (Some ''sub'') (Some [''m1'', ''m2'']) demoStore
       = (BulkDeleteJson 1 1,
          demoStore\<lparr>messages := [demoText ''m1'' ''admin'' ''Welcome'' 1000,
                                  (demoText ''m2'' ''ravi'' ''Thanks'' 2000)
                                    \<lparr>msg_isDeleted := True\<rparr>]\<rparr>,
          [MessageDeleted None])
   \<and> demoStore\<lparr>messages := [demoText ''m1'' ''admin'' ''Welcome'' 1000,
                              (demoText ''m2'' ''ravi'' ''Thanks'' 2000)
                                \<lparr>msg_isDeleted := True\<rparr>]\<rparr> \<noteq> demoStore
   \<and> bulkDeleteRoute (Some ''sub'') (Some [''m1'']) demoStore
       = (BulkDeleteJson 0 1, demoStore, [MessageDeleted None])
   \<and> pinRoute (Some ''sub'') ''m1'' demoStore
       = (SuccessJson,
          demoStore\<lparr>messages := [(demoText ''m1'' ''admin'' ''Welcome'' 1000)
                                    \<lparr>msg_isPinned := True\<rparr>,
                                  demoText ''m2'' ''ravi'' ''Thanks'' 2000]\<rparr>,
          [MessagePinned ''m1''])
   \<and> demoStore\<lparr>messages := [(demoText ''m1'' ''admin'' ''Welcome'' 1000)
                                \<lparr>msg_isPinned := True\<rparr>,
                              demoText ''m2'' ''ravi'' ''Thanks'' 2000]\<rparr> \<noteq> demoStore
   \<and> map_option m_role (getMember adminRestrictedStore ''sub'') = Some ''sub-admin''
   \<and> map_option m_phone (getMember adminRestrictedStore ''admin'') = Some PRIMARY_ADMIN_PHONE
   \<and> unrestrictMember (Some ''sub'') ''admin'' adminRestrictedStore
       = (MemberJson (Some (demoMember ''admin'' ''Admin'' ''7030809030'' ''admin'')),
          demoStore,
          [MemberUpdated (Some (demoMember ''admin'' ''Admin'' ''7030809030'' ''admin''))])
   \<and> adminRestrictedStore \<noteq> demoStore"
  by code_simp

text \<open>
  C7, amended. A sub-admin's request to update the record of the member holding the
  primary-admin phone, to restrict that member, to delete that member, or to delete a
  single message sent by that member, is denied with status 403, changes nothing and
  broadcasts nothing. A sub-admin's bulk delete of a non-empty list is not denied: it
  soft-deletes (and unpins) exactly the listed messages that were not sent by the primary
  admin, leaves every other row and every other table as it was, broadcasts the deletion,
  and answers success with the number of listed ids deleted and the number skipped
  because the primary admin sent them. So each message of the primary admin stays in the
  messages table as it was, and the members table is unchanged, whatever list is sent.
  Pinning and lifting a restriction have no primary-admin guard: a sub-admin's request to
  pin or unpin any message, and to lift the restriction of any member, the primary admin
  included, succeeds. (Message ids are the primary key of their table.)
\<close>

theorem subAdmin_cannot_touch_primary:
  assumes "truthy session" and "getMember s (textOf session) = Some rm"
    and "m_role rm = ''sub-admin''" and "distinct (map msg_id (messages s))"
  shows
    "(getMember s targetId = Some target \<and> m_phone target = PRIMARY_ADMIN_PHONE \<longrightarrow>
        patchMember session targetId body s
          = (Fail 403 ''Sub-admins cannot modify the primary admin'', s, [])
        \<and> restrictMember e session targetId hours s
            = (Fail 403 ''Sub-admins cannot restrict the primary admin'', s, [])
        \<and> deleteMemberRoute session targetId s
            = (Fail 403 ''Cannot delete the primary admin'', s, []))
     \<and> (getMessage s msgId = Some msg \<and> sentByPrimary s msg \<longrightarrow>
          deleteMessageRoute session msgId s
            = (Fail 403 ''Sub-admins cannot delete primary admin messages'', s, []))
     \<and> (listed \<noteq> [] \<longrightarrow>
          bulkDeleteRoute session (Some listed) s
            = (BulkDeleteJson (length (filter (deletableId s) listed))
                 (length (filter (protectedId s) listed)),
               bulkDeleted s listed, [MessageDeleted None]))
     \<and> (\<forall>m \<in> set (messages s). sentByPrimary s m \<longrightarrow>
          m \<in> set (messages (fst (snd (bulkDeleteRoute session ids s)))))
     \<and> members (fst (snd (bulkDeleteRoute session ids s))) = members s
     \<and> pinRoute session anyId s = (SuccessJson, pinMessage anyId s, [MessagePinned anyId])
     \<and> unrestrictMember session anyMember s
         = (MemberJson (map_option (\<lambda>m. m\<lparr>m_restrictedUntil := None\<rparr>)
                          (getMember s anyMember)),
            s\<lparr>members := map (\<lambda>m. if m_id m = anyMember
                                    then m\<lparr>m_restrictedUntil := None\<rparr> else m)
                             (members s)\<rparr>,
            [MemberUpdated (map_option (\<lambda>m. m\<lparr>m_restrictedUntil := None\<rparr>)
                              (getMember s anyMember))])"
proof -
  note ra = requireAdmin_subAdmin [OF assms(1,2,3)]
  have members_routes: "getMember s targetId = Some target \<Longrightarrow> m_phone target = PRIMARY_ADMIN_PHONE \<Longrightarrow>
        patchMember session targetId body s
          = (Fail 403 ''Sub-admins cannot modify the primary admin'', s, [])
        \<and> restrictMember e session targetId hours s
            = (Fail 403 ''Sub-admins cannot restrict the primary admin'', s, [])
        \<and> deleteMemberRoute session targetId s
            = (Fail 403 ''Cannot delete the primary admin'', s, [])"
    using assms(2,3)
    by (simp add: patchMember_def restrictMember_def deleteMemberRoute_def ra subAdminOnPrimary_def)
  have single: "getMessage s msgId = Some msg \<Longrightarrow> sentByPrimary s msg \<Longrightarrow>
          deleteMessageRoute session msgId s
            = (Fail 403 ''Sub-admins cannot delete primary admin messages'', s, [])"
    using protectedMessage_primary [OF assms(3), of s msg] assms(2)
    by (simp add: deleteMessageRoute_def ra)
  have exact: "listed \<noteq> [] \<Longrightarrow>
          bulkDeleteRoute session (Some listed) s
            = (BulkDeleteJson (length (filter (deletableId s) listed))
                 (length (filter (protectedId s) listed)),
               bulkDeleted s listed, [MessageDeleted None])"
    using bulkDeleteLoop_exact [OF assms(3) assms(4), of listed 0 0] assms(2)
    by (simp add: bulkDeleteRoute_def ra)
  have bulk: "m \<in> set (messages (fst (snd (bulkDeleteRoute session ids s))))
              \<and> members (fst (snd (bulkDeleteRoute session ids s))) = members s"
    if "m \<in> set (messages s)" "sentByPrimary s m" for m
    using bulkDeleteLoop_protects [OF assms(3) assms(4) that, of "the ids" 0 0] that(1) assms(2)
    by (auto simp: bulkDeleteRoute_def ra split_beta split: option.splits)
  have bulk_members: "members (fst (snd (bulkDeleteRoute session ids s))) = members s"
  proof (cases ids)
    case None
    then show ?thesis by (simp add: bulkDeleteRoute_def ra)
  next
    case (Some l)
    have "members (fst (bulkDeleteLoop (Some rm) l t d k)) = members t" for t d k
    proof (induction l arbitrary: t d k)
      case Nil
      show ?case by simp
    next
      case (Cons i l)
      show ?case
        by (simp add: Let_def Cons.IH deleteMessage_tables)
    qed
    with Some assms(2) show ?thesis
      by (simp add: bulkDeleteRoute_def ra split_beta)
  qed
  have pin: "pinRoute session anyId s = (SuccessJson, pinMessage anyId s, [MessagePinned anyId])"
    by (simp add: pinRoute_def ra)
  have lift: "unrestrictMember session anyMember s
         = (MemberJson (map_option (\<lambda>m. m\<lparr>m_restrictedUntil := None\<rparr>)
                          (getMember s anyMember)),
            s\<lparr>members := map (\<lambda>m. if m_id m = anyMember
                                    then m\<lparr>m_restrictedUntil := None\<rparr> else m)
                             (members s)\<rparr>,
            [MemberUpdated (map_option (\<lambda>m. m\<lparr>m_restrictedUntil := None\<rparr>)
                              (getMember s anyMember))])"
    by (simp add: unrestrictMember_def ra updateMember_def)
  from members_routes single exact bulk bulk_members pin lift show ?thesis
    by blast
qed

theorem subAdmin_cannot_touch_primary_witness:
  "patchMember (Some ''sub'') ''admin''
       \<lparr> pb_name = Some ''Nobody'', pb_phone = None, pb_isActive = Some False \<rparr> demoStore
     = (Fail 403 ''Sub-admins cannot modify the primary admin'', demoStore, [])
   \<and> restrictMember demoEnv (Some ''sub'') ''admin'' (Some 24) demoStore
       = (Fail 403 ''Sub-admins cannot restrict the primary admin'', demoStore, [])
   \<and> deleteMemberRoute (Some ''sub'') ''admin'' demoStore
       = (Fail 403 ''Cannot delete the primary admin'', demoStore, [])
   \<and> deleteMessageRoute (Some ''sub'') ''m1'' demoStore
       = (Fail 403 ''Sub-admins cannot delete primary admin messages'', demoStore, [])
   \<and> bulkDeleteRoute (Some ''sub'') (Some [''m1'', ''m2'', ''m9'']) demoStore
       = (BulkDeleteJson 1 1,
          demoStore\<lparr>messages := [demoText ''m1'' ''admin'' ''Welcome'' 1000,
                                  (demoText ''m2'' ''ravi'' ''Thanks'' 2000)
                                    \<lparr>msg_isDeleted := True\<rparr>]\<rparr>,
          [MessageDeleted None])
   \<and> demoText ''m1'' ''admin'' ''Welcome'' 1000
       \<in> set (messages (fst (snd (bulkDeleteRoute (Some ''sub'') (Some [''m1'', ''m2''])
                                    demoStore))))
   \<and> pinRoute (Some ''sub'') ''m1'' demoStore
       = (SuccessJson,
          demoStore\<lparr>messages := [(demoText ''m1'' ''admin'' ''Welcome'' 1000)
                                    \<lparr>msg_isPinned := True\<rparr>,
                                  demoText ''m2'' ''ravi'' ''Thanks'' 2000]\<rparr>,
          [MessagePinned ''m1''])
   \<and> unrestrictMember (Some ''sub'') ''admin'' adminRestrictedStore
       = (MemberJson (Some (demoMember ''admin'' ''Admin'' ''7030809030'' ''admin'')),
          demoStore,
          [MemberUpdated (Some (demoMember ''admin'' ''Admin'' ''7030809030'' ''admin''))])"
proof -
  let ?sub = "demoMember ''sub'' ''Sub Admin'' ''9000000001'' ''sub-admin''"
  let ?admin = "demoMember ''admin'' ''Admin'' ''7030809030'' ''admin''"
  let ?m1 = "demoText ''m1'' ''admin'' ''Welcome'' 1000"
  let ?clear = "\<lambda>m. m\<lparr>m_restrictedUntil := None\<rparr>"
  have h1: "truthy (Some ''sub'')"
    by (simp add: truthy_def)
  have h2: "getMember demoStore (textOf (Some ''sub'')) = Some ?sub"
    "getMember adminRestrictedStore (textOf (Some ''sub'')) = Some ?sub"
    by code_simp+
  have h3: "m_role ?sub = ''sub-admin''"
    by (simp add: demoMember_def)
  have h4: "distinct (map msg_id (messages demoStore))"
    "distinct (map msg_id (messages adminRestrictedStore))"
    by code_simp+
  have t: "getMember demoStore ''admin'' = Some ?admin" "m_phone ?admin = PRIMARY_ADMIN_PHONE"
    by code_simp+
  have m: "getMessage demoStore ''m1'' = Some ?m1" "sentByPrimary demoStore ?m1"
    "?m1 \<in> set (messages demoStore)"
    by code_simp+
  have l: "[''m1'', ''m2'', ''m9''] \<noteq> []"
    by simp
  have v: "BulkDeleteJson (length (filter (deletableId demoStore) [''m1'', ''m2'', ''m9'']))
             (length (filter (protectedId demoStore) [''m1'', ''m2'', ''m9'']))
             = BulkDeleteJson 1 1"
    "bulkDeleted demoStore [''m1'', ''m2'', ''m9'']
       = demoStore\<lparr>messages := [?m1, (demoText ''m2'' ''ravi'' ''Thanks'' 2000)
                                         \<lparr>msg_isDeleted := True\<rparr>]\<rparr>"
    "pinMessage ''m1'' demoStore
       = demoStore\<lparr>messages := [?m1\<lparr>msg_isPinned := True\<rparr>,
                                demoText ''m2'' ''ravi'' ''Thanks'' 2000]\<rparr>"
    "map_option ?clear (getMember adminRestrictedStore ''admin'') = Some ?admin"
    "adminRestrictedStore\<lparr>members := map (\<lambda>m. if m_id m = ''admin'' then ?clear m else m)
                                          (members adminRestrictedStore)\<rparr> = demoStore"
    by code_simp+
  note on_demo = subAdmin_cannot_touch_primary [OF h1 h2(1) h3 h4(1), where targetId = "''admin''"
      and target = ?admin and e = demoEnv and hours = "Some 24" and msgId = "''m1''"
      and msg = ?m1 and ids = "Some [''m1'', ''m2'']" and listed = "[''m1'', ''m2'', ''m9'']"
      and anyId = "''m1''" and anyMember = "''admin''"
      and body = "\<lparr> pb_name = Some ''Nobody'', pb_phone = None, pb_isActive = Some False \<rparr>"]
  note on_restricted = subAdmin_cannot_touch_primary [OF h1 h2(2) h3 h4(2),
      where anyMember = "''admin''"]
  from on_demo t m l have
    "patchMember (Some ''sub'') ''admin''
       \<lparr> pb_name = Some ''Nobody'', pb_phone = None, pb_isActive = Some False \<rparr> demoStore
     = (Fail 403 ''Sub-admins cannot modify the primary admin'', demoStore, [])"
    "restrictMember demoEnv (Some ''sub'') ''admin'' (Some 24) demoStore
       = (Fail 403 ''Sub-admins cannot restrict the primary admin'', demoStore, [])"
    "deleteMemberRoute (Some ''sub'') ''admin'' demoStore
       = (Fail 403 ''Cannot delete the primary admin'', demoStore, [])"
    "deleteMessageRoute (Some ''sub'') ''m1'' demoStore
       = (Fail 403 ''Sub-admins cannot delete primary admin messages'', demoStore, [])"
    "?m1 \<in> set (messages (fst (snd (bulkDeleteRoute (Some ''sub'') (Some [''m1'', ''m2''])
                                    demoStore))))"
    by blast+
  moreover from on_demo l have
    "bulkDeleteRoute (Some ''sub'') (Some [''m1'', ''m2'', ''m9'']) demoStore
       = (BulkDeleteJson (length (filter (deletableId demoStore) [''m1'', ''m2'', ''m9'']))
            (length (filter (protectedId demoStore) [''m1'', ''m2'', ''m9''])),
          bulkDeleted demoStore [''m1'', ''m2'', ''m9''], [MessageDeleted None])"
    "pinRoute (Some ''sub'') ''m1'' demoStore
       = (SuccessJson, pinMessage ''m1'' demoStore, [MessagePinned ''m1''])"
    by blast+
  moreover from on_restricted have
    "unrestrictMember (Some ''sub'') ''admin'' adminRestrictedStore
       = (MemberJson (map_option ?clear (getMember adminRestrictedStore ''admin'')),
          adminRestrictedStore\<lparr>members := map (\<lambda>m. if m_id m = ''admin'' then ?clear m else m)
                                               (members adminRestrictedStore)\<rparr>,
          [MemberUpdated (map_option ?clear (getMember adminRestrictedStore ''admin''))])"
    by blast
  ultimately show ?thesis
    unfolding v by blast
qed

section \<open>Deleting and pinning (claim C8)\<close>

text \<open>
  C8. Soft-deleting a message sets \<open>isDeleted\<close> and clears \<open>isPinned\<close> in one update and
  keeps the row, and no reachable store holds a message that is both deleted and pinned.
  \<open>deleteMessage\<close> does the former; \<open>pinMessage\<close> toggles the pin of any row, deleted or
  not. The primary admin deletes message \<open>m2\<close> and then calls the pin route on it: the row
  is deleted and pinned.
\<close>

theorem pin_after_delete_is_deleted_and_pinned:
  "map (\<lambda>m. (msg_id m, msg_isDeleted m, msg_isPinned m))
     (messages (fst (snd (deleteMessageRoute (Some ''admin'') ''m2'' demoStore))))
     = [(''m1'', False, False), (''m2'', True, False)]
   \<and> map (\<lambda>m. (msg_id m, msg_isDeleted m, msg_isPinned m))
       (messages (fst (snd (pinRoute (Some ''admin'') ''m2''
          (fst (snd (deleteMessageRoute (Some ''admin'') ''m2'' demoStore)))))))
     = [(''m1'', False, False), (''m2'', True, True)]
   \<and> fst (pinRoute (Some ''admin'') ''m2''
          (fst (snd (deleteMessageRoute (Some ''admin'') ''m2'' demoStore)))) = SuccessJson"
  by code_simp

section \<open>The shape of a created message (claim C9)\<close>

lemma uploadMessage_message:
  assumes "uploadMessage e session file rid s = (MessageJson m, s', evs)"
  shows "m \<in> set (messages s') \<and> msg_content m = None
         \<and> (msg_type m = ''image'' \<or> msg_type m = ''file'') \<and> msg_fileUrl m \<noteq> None"
proof -
  from assms obtain f sender where
    f: "file = Some f" and "getMember s (textOf session) = Some sender"
    by (auto simp: uploadMessage_def Let_def split: if_splits option.splits)
  let ?d = "\<lparr> im_senderId = textOf session, im_content = None,
               im_type = (if startsWith (f_mimetype f) ''image/'' then ''image'' else ''file''),
               im_fileUrl = Some (''/uploads/'' @ f_filename f),
               im_fileName = Some (f_originalname f),
               im_replyToId = orNull rid, im_mentions = None \<rparr>"
  let ?s1 = "snd (getChatSettings s)"
  obtain msg s2 where c: "createMessage e ?d ?s1 = (msg, s2)"
    by (cases "createMessage e ?d ?s1")
  obtain ids s3 evs1 where n: "notifyReply e (textOf session) msg (orNull rid) s2 = (ids, s3, evs1)"
    by (cases "notifyReply e (textOf session) msg (orNull rid) s2") auto
  from assms f c n have res: "m = msg" "s' = s3"
    by (auto simp: uploadMessage_def Let_def split_beta split: if_splits option.splits)
  from c have "messages s2 = messages ?s1 @ [msg]" "msg_content msg = None"
      "msg_type msg = ''image'' \<or> msg_type msg = ''file''" "msg_fileUrl msg \<noteq> None"
    by (auto simp: createMessage_def Let_def split: if_splits)
  with notifyReply_tables(1) [OF n] res show ?thesis by simp
qed

text \<open>
  C9, as stated, fails for the text-send route, which stores the \<open>type\<close> and \<open>fileUrl\<close>
  of the request body as they come: a body with content and the type \<open>image\<close> gives a
  non-text message with content, and a body of type \<open>text\<close> with a \<open>fileUrl\<close> gives a text
  message with a file reference.
\<close>

theorem created_message_shape_counterexample:
  "postMessage demoEnv (Some ''ravi'') ((demoBody ''look'')\<lparr>b_type := Some ''image''\<rparr>) demoStore
     = (MessageJson ((demoText ''uuid-'' ''ravi'' ''look'' 1000000000)\<lparr>msg_type := ''image''\<rparr>),
        demoStored ((demoText ''uuid-'' ''ravi'' ''look'' 1000000000)\<lparr>msg_type := ''image''\<rparr>),
        [NewMessage ((demoText ''uuid-'' ''ravi'' ''look'' 1000000000)\<lparr>msg_type := ''image''\<rparr>)])
   \<and> \<not> shapeInvariant ((demoText ''uuid-'' ''ravi'' ''look'' 1000000000)\<lparr>msg_type := ''image''\<rparr>)
   \<and> postMessage demoEnv (Some ''ravi'') ((demoBody ''look'')\<lparr>b_fileUrl := Some ''/uploads/x.png''\<rparr>)
       demoStore
     = (MessageJson ((demoText ''uuid-'' ''ravi'' ''look'' 1000000000)
                      \<lparr>msg_fileUrl := Some ''/uploads/x.png''\<rparr>),
        demoStored ((demoText ''uuid-'' ''ravi'' ''look'' 1000000000)
                      \<lparr>msg_fileUrl := Some ''/uploads/x.png''\<rparr>),
        [NewMessage ((demoText ''uuid-'' ''ravi'' ''look'' 1000000000)
                      \<lparr>msg_fileUrl := Some ''/uploads/x.png''\<rparr>)])
   \<and> \<not> shapeInvariant ((demoText ''uuid-'' ''ravi'' ''look'' 1000000000)
                          \<lparr>msg_fileUrl := Some ''/uploads/x.png''\<rparr>)"
  by code_simp

text \<open>
  C9, amended. Every message created by the file-upload route has no content and the type
  \<open>image\<close> or \<open>file\<close>, so it satisfies the shape invariant. A message created by the
  text-send route has the content of the body, the body's type (\<open>text\<close> when the body
  names none) and the body's \<open>fileUrl\<close> (null when the body has none); it satisfies the
  invariant exactly when the body names a type other than \<open>text\<close> and has no content, or
  names no such type and has no \<open>fileUrl\<close>.
\<close>

theorem created_message_shape:
  "(uploadMessage e session upload rid s = (MessageJson m, s', evs) \<longrightarrow>
      m \<in> set (messages s') \<and> msg_content m = None
      \<and> (msg_type m = ''image'' \<or> msg_type m = ''file'') \<and> shapeInvariant m)
   \<and> (postMessage e' session' body t = (MessageJson m', t', evs') \<longrightarrow>
        m' \<in> set (messages t') \<and> msg_content m' = b_content body
        \<and> msg_type m' = (if truthy (b_type body) then textOf (b_type body) else ''text'')
        \<and> msg_fileUrl m' = orNull (b_fileUrl body)
        \<and> shapeInvariant m'
            = (if truthy (b_type body) \<and> b_type body \<noteq> Some ''text''
               then b_content body = None else \<not> truthy (b_fileUrl body)))"
proof -
  have up: "m \<in> set (messages s') \<and> msg_content m = None
      \<and> (msg_type m = ''image'' \<or> msg_type m = ''file'') \<and> shapeInvariant m"
    if "uploadMessage e session upload rid s = (MessageJson m, s', evs)"
    using uploadMessage_message [OF that] by (auto simp: shapeInvariant_def)
  have post: "m' \<in> set (messages t') \<and> msg_content m' = b_content body
        \<and> msg_type m' = (if truthy (b_type body) then textOf (b_type body) else ''text'')
        \<and> msg_fileUrl m' = orNull (b_fileUrl body)
        \<and> shapeInvariant m'
            = (if truthy (b_type body) \<and> b_type body \<noteq> Some ''text''
               then b_content body = None else \<not> truthy (b_fileUrl body))"
    if "postMessage e' session' body t = (MessageJson m', t', evs')"
    using persistAndNotify_message [OF postMessage_accepted [OF that]]
    by (auto simp: shapeInvariant_def orNull_def truthy_def textOf_def split: option.splits)
  from up post show ?thesis by blast
qed

theorem created_message_shape_witness:
  "uploadMessage demoEnv (Some ''ravi'') (Some demoFile) None demoStore
     = (MessageJson demoImage, demoStored demoImage, [NewMessage demoImage])
   \<and> shapeInvariant demoImage
   \<and> postMessage demoEnv (Some ''ravi'') (demoBody ''hello'') demoStore
       = (MessageJson (demoText ''uuid-'' ''ravi'' ''hello'' 1000000000),
          demoStored (demoText ''uuid-'' ''ravi'' ''hello'' 1000000000),
          [NewMessage (demoText ''uuid-'' ''ravi'' ''hello'' 1000000000)])
   \<and> shapeInvariant (demoText ''uuid-'' ''ravi'' ''hello'' 1000000000)"
proof -
  let ?hello = "demoText ''uuid-'' ''ravi'' ''hello'' 1000000000"
  have u: "uploadMessage demoEnv (Some ''ravi'') (Some demoFile) None demoStore
     = (MessageJson demoImage, demoStored demoImage, [NewMessage demoImage])"
    by code_simp
  have p: "postMessage demoEnv (Some ''ravi'') (demoBody ''hello'') demoStore
       = (MessageJson ?hello, demoStored ?hello, [NewMessage ?hello])"
    by code_simp
  have b: "\<not> (truthy (b_type (demoBody ''hello'')) \<and> b_type (demoBody ''hello'') \<noteq> Some ''text'')"
    "\<not> truthy (b_fileUrl (demoBody ''hello''))"
    by (simp_all add: demoBody_def truthy_def)
  note A = created_message_shape [where e = demoEnv and session = "Some ''ravi''"
      and upload = "Some demoFile" and rid = None and s = demoStore and m = demoImage
      and s' = "demoStored demoImage" and evs = "[NewMessage demoImage]"
      and e' = demoEnv and session' = "Some ''ravi''" and body = "demoBody ''hello''"
      and t = demoStore and m' = ?hello and t' = "demoStored ?hello"
      and evs' = "[NewMessage ?hello]"]
  from A u have "shapeInvariant demoImage"
    by blast
  moreover from A p b have "shapeInvariant ?hello"
    by simp
  ultimately show ?thesis
    using u p by blast
qed

section \<open>The phone-number filter (claim C10)\<close>

lemma rep_matches_run:
  assumes "\<forall>x \<in> set ds. c x" and "lo \<le> length ds"
  shows "matchHere [Rep c lo None] prev (ds @ post)"
  using assms
proof (induction ds arbitrary: lo prev)
  case Nil
  then show ?case by (cases post) simp_all
next
  case (Cons d ds)
  from Cons.prems have "lo - 1 \<le> length ds" "\<forall>x \<in> set ds. c x" "c d"
    by auto
  from Cons.IH [OF this(2) this(1)] \<open>c d\<close> show ?case
    by (simp add: belowMax_def decMax_def)
qed

lemma searchFrom_here: "matchHere p prev s \<Longrightarrow> searchFrom p prev s"
  by (cases s) simp_all

lemma searchFrom_later:
  assumes "\<And>prev. matchHere p prev s"
  shows "searchFrom p prev (pre @ s)"
proof (induction pre arbitrary: prev)
  case Nil
  show ?case using assms by (simp add: searchFrom_here)
next
  case (Cons a pre)
  then show ?case by simp
qed

lemma digitRun_test:
  assumes "spec_digitRun txt"
  shows "test [Rep isDigit 10 None] txt"
proof -
  from assms obtain pre ds post where
    eq: "txt = pre @ ds @ post" and len: "10 \<le> length ds" and dig: "\<forall>c \<in> set ds. isDigit c"
    by (auto simp: spec_digitRun_def)
  have "\<And>prev. matchHere [Rep isDigit 10 None] prev (ds @ post)"
    using rep_matches_run [OF dig len] .
  then show ?thesis
    unfolding test_def eq by (rule searchFrom_later)
qed

lemma digitRun_containsPhoneNumber:
  "spec_digitRun (cleaned txt) \<Longrightarrow> containsPhoneNumber txt"
  by (simp add: containsPhoneNumber_def digitRun_test)

lemma call_me_digitRun: "spec_digitRun (cleaned ''Call me at 9876543210'')"
proof -
  have "cleaned ''Call me at 9876543210'' = ''Callmeat'' @ ''9876543210'' @ []"
    by code_simp
  moreover have "10 \<le> length ''9876543210''"
    by simp
  moreover have "\<forall>c \<in> set ''9876543210''. isDigit c"
    by code_simp
  ultimately show ?thesis
    unfolding spec_digitRun_def by blast
qed

text \<open>
  C10, as stated, fails for a sender whom an earlier check refuses: the restricted member
  \<open>ravi\<close> sends the text with the phone number while the filter is on, and is refused as
  restricted, not for the phone number.
\<close>

theorem postMessage_phone_number_restricted_counterexample:
  "\<not> isAdminRole ''member''
   \<and> phoneNumberFilterEnabled (fst (getChatSettings restrictedStore))
   \<and> containsPhoneNumber ''Call me at 9876543210''
   \<and> getMember restrictedStore ''ravi''
       = Some ((demoMember ''ravi'' ''Ravi Sharma'' ''9876543210'' ''member'')
                 \<lparr>m_restrictedUntil := Some 2000000000\<rparr>)
   \<and> postMessage demoEnv (Some ''ravi'') (demoBody ''Call me at 9876543210'') restrictedStore
       = (Fail 403 ''You are restricted from sending messages'', restrictedStore, [])"
  by code_simp

text \<open>
  C10, amended. For a sender who is not admin or sub-admin and whom no earlier check
  refuses (not restricted, chat not disabled, no stored keyword in the content), when the
  phone-number filter is on, any text with ten or more consecutive digits after stripping
  white space, parentheses, hyphens, periods and plus signs is refused with the
  phone-number reason and nothing is stored or broadcast; \<open>Call me at 9876543210\<close> is
  such a text. The same content sent by an unrestricted admin or sub-admin, the primary
  admin among them, is accepted, stored and broadcast first as a \<open>new_message\<close> event.
\<close>

theorem postMessage_phone_number:
  assumes "truthy session" and "getMember s (textOf session) = Some sender"
    and "keywordsNormalised s" and "\<not> isRestricted e sender"
  shows
    "(\<not> isAdminRole (m_role sender) \<and> \<not> chatDisabled (fst (getChatSettings s))
        \<and> \<not> (\<exists>k \<in> set (blockedKeywords s).
                spec_containsCI (textOf (b_content body)) (k_keyword k))
        \<and> phoneNumberFilterEnabled (fst (getChatSettings s))
        \<and> spec_digitRun (cleaned (textOf (b_content body))) \<longrightarrow>
      postMessage e session body s
        = (Fail 403 ''Sharing phone numbers is not allowed in this chat.'',
           snd (getChatSettings s), [])
      \<and> messages (snd (getChatSettings s)) = messages s)
     \<and> (isAdminRole (m_role sender) \<longrightarrow>
          (\<exists>msg s' evs. postMessage e session body s = (MessageJson msg, s', NewMessage msg # evs)
             \<and> messages s' = messages s @ [msg] \<and> msg_content msg = b_content body))
     \<and> spec_digitRun (cleaned ''Call me at 9876543210'')"
proof (cases "isAdminRole (m_role sender)")
  case True
  obtain r s' evs where p: "persistAndNotify e (textOf session) body (snd (getChatSettings s)) = (r, s', evs)"
    by (cases "persistAndNotify e (textOf session) body (snd (getChatSettings s))")
  from persistAndNotify_message [OF p] p True assms(4) show ?thesis
    by (auto simp: postMessage_admin [OF assms(1,2) True] getChatSettings_tables call_me_digitRun)
next
  case False
  then show ?thesis
    using digitRun_containsPhoneNumber [of "textOf (b_content body)"] assms(4)
    by (auto simp: postMessage_member [OF assms(1,2,3) False] getChatSettings_tables call_me_digitRun)
qed

theorem postMessage_phone_number_witness:
  "postMessage demoEnv (Some ''ravi'') (demoBody ''Call me at 9876543210'') demoStore
     = (Fail 403 ''Sharing phone numbers is not allowed in this chat.'', demoStore, [])
   \<and> (\<exists>msg s' evs.
         postMessage demoEnv (Some ''admin'') (demoBody ''Call me at 9876543210'') demoStore
           = (MessageJson msg, s', NewMessage msg # evs)
         \<and> messages s' = messages demoStore @ [msg]
         \<and> msg_content msg = Some ''Call me at 9876543210'')"
proof -
  let ?ravi = "demoMember ''ravi'' ''Ravi Sharma'' ''9876543210'' ''member''"
  let ?admin = "demoMember ''admin'' ''Admin'' ''7030809030'' ''admin''"
  let ?body = "demoBody ''Call me at 9876543210''"
  have t: "truthy (Some ''ravi'')" "truthy (Some ''admin'')"
    by (simp_all add: truthy_def)
  have g1: "getMember demoStore (textOf (Some ''ravi'')) = Some ?ravi"
    by code_simp
  have g2: "getMember demoStore (textOf (Some ''admin'')) = Some ?admin"
    by code_simp
  have k: "keywordsNormalised demoStore"
    by code_simp
  have r: "\<not> isRestricted demoEnv ?ravi" "\<not> isRestricted demoEnv ?admin"
    by code_simp+
  have a: "\<not> isAdminRole (m_role ?ravi)" "isAdminRole (m_role ?admin)"
    by code_simp+
  have c: "\<not> chatDisabled (fst (getChatSettings demoStore))"
    "phoneNumberFilterEnabled (fst (getChatSettings demoStore))"
    "snd (getChatSettings demoStore) = demoStore"
    by code_simp+
  have nk: "\<not> (\<exists>k \<in> set (blockedKeywords demoStore).
                spec_containsCI (textOf (b_content ?body)) (k_keyword k))"
    by (simp add: demoStore_def)
  have b: "textOf (b_content ?body) = ''Call me at 9876543210''"
    "b_content ?body = Some ''Call me at 9876543210''"
    by (simp_all add: demoBody_def textOf_def)
  note A = postMessage_phone_number [OF t(1) g1 k r(1), of ?body]
  from A have "spec_digitRun (cleaned ''Call me at 9876543210'')"
    by blast
  then have run: "spec_digitRun (cleaned (textOf (b_content ?body)))"
    by (simp add: demoBody_def textOf_def)
  from A a(1) c(1,2) nk run
  have "postMessage demoEnv (Some ''ravi'') ?body demoStore
     = (Fail 403 ''Sharing phone numbers is not allowed in this chat.'',
        snd (getChatSettings demoStore), [])"
    by blast
  then have w1: "postMessage demoEnv (Some ''ravi'') ?body demoStore
     = (Fail 403 ''Sharing phone numbers is not allowed in this chat.'', demoStore, [])"
    by (simp add: c(3))
  from postMessage_phone_number [OF t(2) g2 k r(2), of ?body] a(2)
  have "\<exists>msg s' evs. postMessage demoEnv (Some ''admin'') ?body demoStore
           = (MessageJson msg, s', NewMessage msg # evs)
         \<and> messages s' = messages demoStore @ [msg] \<and> msg_content msg = b_content ?body"
    by blast
  with w1 show ?thesis
    by (simp add: b)
qed

end
